theory Spec2Isabelle
  imports Complex_Main "HOL-Library.Log_Nat"
begin

section \<open>Test quality scoring engine of agentqa\<close>

text \<open>
  The development embeds \<^verbatim>\<open>src/core/quality-rules.ts\<close> (the rule catalog) and
  \<^verbatim>\<open>src/core/quality-reviewer.ts\<close> (rule selection, per-file scoring, aggregation).

  Conventions of the embedding:
  \<^item> a JavaScript string is a \<open>string\<close>; one \<open>char\<close> stands for one UTF-16 code unit
    below 256, so the whitespace class \<^verbatim>\<open>\s\<close> is its Latin-1 part;
  \<^item> a JavaScript \<^verbatim>\<open>number\<close> that holds a count is a \<open>nat\<close>, the result of
    \<^verbatim>\<open>Math.round\<close> is an \<open>int\<close>, and any other number is the rational a finite double
    denotes: every addition, subtraction, multiplication and division of the scoring code
    is the exact operation followed by \<open>dbl\<close>, the rounding to the nearest double;
    \<^verbatim>\<open>Math.round\<close> is \<open>round\<close> (half rounds up). Infinities and NaN are not
    modelled: with weights up to 10 the numbers of the engine stay far below the
    overflow threshold;
  \<^item> a \<^verbatim>\<open>detect\<close> function that throws returns \<open>Inl\<close>;
  \<^item> of a violation only \<^verbatim>\<open>ruleId\<close> and \<^verbatim>\<open>line\<close> are kept: \<^verbatim>\<open>message\<close>,
    \<^verbatim>\<open>snippet\<close> and \<^verbatim>\<open>suggestion\<close> are display texts that no scoring or aggregation
    step reads. For the same reason \<^verbatim>\<open>relativePath\<close> and \<^verbatim>\<open>summary\<close> of a reviewed
    file, the timestamp and the recommendation texts of a report are left out.
\<close>

subsection \<open>Regular expressions\<close>

text \<open>
  The rules are written with JavaScript regular expressions. The matcher below is the
  backtracking matcher of the language: alternatives are tried left to right, \<^verbatim>\<open>*\<close> is
  greedy, \<^verbatim>\<open>*?\<close> is lazy, an iteration of a quantifier that consumes nothing is
  rejected. A matcher state is the text before the current position (reversed), the text
  from the position on, and the captured groups (most recent first).
\<close>

type_synonym caps = "(nat \<times> string) list"

type_synonym mstate = "string \<times> string \<times> caps"

datatype re =
    Eps
  | Cls "char \<Rightarrow> bool"
  | Seq re re
  | Alt re re
  | Star re
  | Lazy re
  | Grp nat re
  | Bol
  | Eol
  | Ahead re
  | NotAhead re
  | NotBehind re

text \<open>
  \<open>NotBehind r\<close> is a negative lookbehind; \<open>r\<close> holds the pattern as it is read
  leftwards from the position (JavaScript matches lookbehinds backwards), see \<open>rev_re\<close>.
  \<open>Bol\<close> and \<open>Eol\<close> are \<^verbatim>\<open>^\<close> and \<^verbatim>\<open>$\<close> without the \<^verbatim>\<open>m\<close> flag.
\<close>

function (sequential) rx :: "re \<Rightarrow> mstate \<Rightarrow> (mstate \<Rightarrow> mstate option) \<Rightarrow> mstate option" where
  "rx Eps (b, a, c) k = k (b, a, c)"
| "rx (Cls P) (b, a, c) k =
     (case a of [] \<Rightarrow> None | x # a' \<Rightarrow> if P x then k (x # b, a', c) else None)"
| "rx (Seq r1 r2) (b, a, c) k = rx r1 (b, a, c) (\<lambda>s'. rx r2 s' k)"
| "rx (Alt r1 r2) (b, a, c) k =
     (case rx r1 (b, a, c) k of Some x \<Rightarrow> Some x | None \<Rightarrow> rx r2 (b, a, c) k)"
| "rx (Star r) (b, a, c) k =
     (case rx r (b, a, c)
             (\<lambda>s'. if length (fst (snd s')) < length a then rx (Star r) s' k else None) of
        Some x \<Rightarrow> Some x
      | None \<Rightarrow> k (b, a, c))"
| "rx (Lazy r) (b, a, c) k =
     (case k (b, a, c) of
        Some x \<Rightarrow> Some x
      | None \<Rightarrow>
          rx r (b, a, c)
            (\<lambda>s'. if length (fst (snd s')) < length a then rx (Lazy r) s' k else None))"
| "rx (Grp n r) (b, a, c) k =
     rx r (b, a, c)
       (\<lambda>s'. k (fst s', fst (snd s'),
                 (n, take (length a - length (fst (snd s'))) a) # snd (snd s')))"
| "rx Bol (b, a, c) k = (if b = [] then k (b, a, c) else None)"
| "rx Eol (b, a, c) k = (if a = [] then k (b, a, c) else None)"
| "rx (Ahead r) (b, a, c) k =
     (case rx r (b, a, c) Some of None \<Rightarrow> None | Some _ \<Rightarrow> k (b, a, c))"
| "rx (NotAhead r) (b, a, c) k =
     (case rx r (b, a, c) Some of None \<Rightarrow> k (b, a, c) | Some _ \<Rightarrow> None)"
| "rx (NotBehind r) (b, a, c) k =
     (case rx r ([], b, c) Some of None \<Rightarrow> k (b, a, c) | Some _ \<Rightarrow> None)"
  by pat_completeness auto
termination
  by (relation "inv_image (measure size <*lex*> measure length) (\<lambda>(r, (b, a, c), k). (r, a))")
    auto

text \<open>Building blocks of patterns.\<close>

fun seqs :: "re list \<Rightarrow> re" where
  "seqs [] = Eps"
| "seqs [r] = r"
| "seqs (r # rs) = Seq r (seqs rs)"

fun alts :: "re list \<Rightarrow> re" where
  "alts [] = NotAhead Eps"
| "alts [r] = r"
| "alts (r # rs) = Alt r (alts rs)"

definition chr :: "char \<Rightarrow> re" where
  "chr x = Cls (\<lambda>c. c = x)"

definition lit :: "string \<Rightarrow> re" where
  "lit s = seqs (map chr s)"

definition one_of :: "string \<Rightarrow> re" where
  "one_of s = Cls (\<lambda>c. c \<in> set s)"

definition none_of :: "string \<Rightarrow> re" where
  "none_of s = Cls (\<lambda>c. c \<notin> set s)"

definition Plus :: "re \<Rightarrow> re" where
  "Plus r = Seq r (Star r)"

definition Opt :: "re \<Rightarrow> re" where
  "Opt r = Alt r Eps"

text \<open>The pattern read leftwards, for lookbehinds (which hold no group and no lookaround).\<close>

fun rev_re :: "re \<Rightarrow> re" where
  "rev_re (Seq r1 r2) = Seq (rev_re r2) (rev_re r1)"
| "rev_re (Alt r1 r2) = Alt (rev_re r1) (rev_re r2)"
| "rev_re (Star r) = Star (rev_re r)"
| "rev_re (Lazy r) = Lazy (rev_re r)"
| "rev_re r = r"

definition not_behind :: "re \<Rightarrow> re" where
  "not_behind r = NotBehind (rev_re r)"

text \<open>Character classes: \<^verbatim>\<open>\s\<close>, \<^verbatim>\<open>\d\<close>, \<^verbatim>\<open>\w\<close>, \<^verbatim>\<open>[\s\S]\<close> and \<^verbatim>\<open>.\<close>.\<close>

definition space_chars :: string where
  "space_chars = [CHR '' '', CHR 0x0A, CHR 0x09, CHR 0x0D, CHR 0x0B, CHR 0x0C, CHR 0xA0]"

definition digit_chars :: string where
  "digit_chars = ''0123456789''"

definition word_chars :: string where
  "word_chars = ''abcdefghijklmnopqrstuvwxyzABCDEFGHIJKLMNOPQRSTUVWXYZ0123456789_''"

definition sp :: re where
  "sp = one_of space_chars"

definition dg :: re where
  "dg = one_of digit_chars"

definition wd :: re where
  "wd = one_of word_chars"

definition anychar :: re where
  "anychar = Cls (\<lambda>c. True)"

definition dot :: re where
  "dot = none_of [CHR 0x0A, CHR 0x0D]"

text \<open>The three quote characters \<^verbatim>\<open>'\<close>, \<^verbatim>\<open>"\<close> and the backtick.\<close>

definition sq :: char where
  "sq = CHR 0x27"

definition dq :: char where
  "dq = CHR 0x22"

definition bq :: char where
  "bq = CHR 0x60"

text \<open>Patterns under the \<^verbatim>\<open>i\<close> flag: letters are compared after ASCII case folding.\<close>

definition lower :: "char \<Rightarrow> char" where
  "lower c =
     (case map_of (zip ''ABCDEFGHIJKLMNOPQRSTUVWXYZ'' ''abcdefghijklmnopqrstuvwxyz'') c of
        Some l \<Rightarrow> l
      | None \<Rightarrow> c)"

definition lit_i :: "string \<Rightarrow> re" where
  "lit_i s = seqs (map (\<lambda>x. Cls (\<lambda>c. lower c = lower x)) s)"

subsection \<open>Running a pattern over a text\<close>

record rmatch =
  index :: nat
  matched :: string
  groups :: caps

text \<open>
  \<^verbatim>\<open>RegExp.prototype.exec\<close>: the leftmost match at or after the current position.
  The arguments are the pattern, the reversed text before the position and the text from
  it on; the result is the match and the split of the text at the end of the match.
\<close>

fun exec :: "re \<Rightarrow> string \<Rightarrow> string \<Rightarrow> (rmatch \<times> string \<times> string) option" where
  "exec r b [] =
     (case rx r (b, [], []) Some of
        Some s' \<Rightarrow> Some (\<lparr>index = length b, matched = [], groups = snd (snd s')\<rparr>, b, [])
      | None \<Rightarrow> None)"
| "exec r b (x # xs) =
     (case rx r (b, x # xs, []) Some of
        Some s' \<Rightarrow>
          Some (\<lparr>index = length b,
                 matched = take (length (x # xs) - length (fst (snd s'))) (x # xs),
                 groups = snd (snd s')\<rparr>, fst s', fst (snd s'))
      | None \<Rightarrow> exec r (x # b) xs)"

text \<open>\<^verbatim>\<open>pattern.test(text)\<close> for a pattern without the \<^verbatim>\<open>g\<close> flag.\<close>

definition test :: "re \<Rightarrow> string \<Rightarrow> bool" where
  "test r s = (case exec r [] s of None \<Rightarrow> False | Some _ \<Rightarrow> True)"

text \<open>
  All matches of a pattern with the \<^verbatim>\<open>g\<close> flag, left to right, each search starting
  where the previous match ended (\<^verbatim>\<open>text.match(p)\<close>, \<^verbatim>\<open>text.matchAll(p)\<close> and the
  \<^verbatim>\<open>exec\<close> loop of \<^verbatim>\<open>matchAllWithLineNumbers\<close>). After an empty match the search
  moves on by one character, as \<^verbatim>\<open>match\<close> and \<^verbatim>\<open>matchAll\<close> do; every pattern
  of the catalog consumes at least one character, so the \<^verbatim>\<open>exec\<close> loop never meets
  that case.
\<close>

function match_from :: "re \<Rightarrow> string \<Rightarrow> string \<Rightarrow> rmatch list" where
  "match_from r b a =
     (case exec r b a of
        None \<Rightarrow> []
      | Some (m, b', a') \<Rightarrow>
          if length a' < length a then m # match_from r b' a'
          else (case a of [] \<Rightarrow> [m] | x # xs \<Rightarrow> m # match_from r (x # b) xs))"
  by pat_completeness auto
termination
  by (relation "measure (\<lambda>(r, b, a). length a)") auto

definition match_all :: "re \<Rightarrow> string \<Rightarrow> rmatch list" where
  "match_all r s = match_from r [] s"

definition count_matches :: "re \<Rightarrow> string \<Rightarrow> nat" where
  "count_matches r s = length (match_all r s)"

definition grp :: "nat \<Rightarrow> rmatch \<Rightarrow> string" where
  "grp n m = (case map_of (groups m) n of Some s \<Rightarrow> s | None \<Rightarrow> [])"

subsection \<open>String helpers\<close>

fun startsWith :: "string \<Rightarrow> string \<Rightarrow> bool" where
  "startsWith s [] = True"
| "startsWith [] (y # ys) = False"
| "startsWith (x # xs) (y # ys) = (if x = y then startsWith xs ys else False)"

definition endsWith :: "string \<Rightarrow> string \<Rightarrow> bool" where
  "endsWith s t = startsWith (rev s) (rev t)"

fun includes_str :: "string \<Rightarrow> string \<Rightarrow> bool" where
  "includes_str [] t = (t = [])"
| "includes_str (x # xs) t = (if startsWith (x # xs) t then True else includes_str xs t)"

text \<open>\<^verbatim>\<open>s.split('\n')\<close>: the lines of a text; the empty text has one (empty) line.\<close>

fun split_nl :: "string \<Rightarrow> string list" where
  "split_nl [] = [[]]"
| "split_nl (x # xs) =
     (if x = CHR 0x0A then [] # split_nl xs
      else (case split_nl xs of [] \<Rightarrow> [[x]] | l # ls \<Rightarrow> (x # l) # ls))"

definition trim :: "string \<Rightarrow> string" where
  "trim s = rev (dropWhile (\<lambda>c. c \<in> set space_chars)
                  (rev (dropWhile (\<lambda>c. c \<in> set space_chars) s)))"

text \<open>\<^verbatim>\<open>s.replace(t, '')\<close> with a string \<open>t\<close>: the first occurrence is removed.\<close>

fun remove_first :: "string \<Rightarrow> string \<Rightarrow> string" where
  "remove_first [] t = []"
| "remove_first (x # xs) t =
     (if startsWith (x # xs) t then drop (length t) (x # xs) else x # remove_first xs t)"

text \<open>
  \<^verbatim>\<open>s.split(p)\<close> for a pattern \<open>p\<close> that consumes at least one character: the pieces
  between the successive matches.
\<close>

fun pieces :: "string \<Rightarrow> nat \<Rightarrow> rmatch list \<Rightarrow> string list" where
  "pieces s p [] = [drop p s]"
| "pieces s p (m # ms) =
     take (index m - p) (drop p s) # pieces s (index m + length (matched m)) ms"

definition split_re :: "re \<Rightarrow> string \<Rightarrow> string list" where
  "split_re r s = pieces s 0 (match_all r s)"

subsection \<open>Helpers of the rule catalog\<close>

definition findLineNumber :: "string \<Rightarrow> nat \<Rightarrow> nat" where
  "findLineNumber content i = length (split_nl (take i content))"

definition getLineContent :: "string \<Rightarrow> nat \<Rightarrow> string" where
  "getLineContent content lineNumber =
     (let ls = split_nl content
      in if 1 \<le> lineNumber \<and> lineNumber \<le> length ls then trim (ls ! (lineNumber - 1)) else [])"

record located =
  lm_match :: rmatch
  lm_line :: nat
  lm_snippet :: string

definition matchAllWithLineNumbers :: "string \<Rightarrow> re \<Rightarrow> located list" where
  "matchAllWithLineNumbers content pattern =
     map (\<lambda>m. \<lparr>lm_match = m,
               lm_line = findLineNumber content (index m),
               lm_snippet = getLineContent content (findLineNumber content (index m))\<rparr>)
       (match_all pattern content)"

subsection \<open>Data model of the rule catalog\<close>

datatype Severity = Error | Warning | Info

datatype RuleCategory =
  Flaky | Theater | OverMocking | Assertions | Isolation | Maintainability | Structure

record RuleViolation =
  ruleId :: string
  line :: "nat option"

text \<open>What a \<^verbatim>\<open>detect\<close> function throws.\<close>

datatype exn = Thrown string

record QualityRule =
  rule_id :: string
  name :: string
  description :: string
  category :: RuleCategory
  severity :: Severity
  weight :: rat
  detect :: "string \<Rightarrow> string \<Rightarrow> exn + RuleViolation list"

definition violation :: "string \<Rightarrow> nat \<Rightarrow> RuleViolation" where
  "violation rid l = \<lparr>ruleId = rid, line = Some l\<rparr>"

text \<open>
  The loop shared by most rules: for each pattern in turn, one violation per match, at
  the line of the match.
\<close>

definition per_match :: "string \<Rightarrow> string \<Rightarrow> re list \<Rightarrow> RuleViolation list" where
  "per_match rid content patterns =
     concat (map (\<lambda>p. map (\<lambda>m. violation rid (lm_line m)) (matchAllWithLineNumbers content p))
               patterns)"

fun test_any :: "re list \<Rightarrow> string \<Rightarrow> bool" where
  "test_any [] s = False"
| "test_any (p # ps) s = (if test p s then True else test_any ps s)"

fun includes_any :: "string \<Rightarrow> string list \<Rightarrow> bool" where
  "includes_any s [] = False"
| "includes_any s (t # ts) = (if includes_str s t then True else includes_any s ts)"

text \<open>Fragments that many patterns share.\<close>

definition sps :: re where
  "sps = Star sp"

definition sp1 :: re where
  "sp1 = Plus sp"

definition it_or_test :: re where
  "it_or_test = Alt (lit ''it'') (lit ''test'')"

definition quote3 :: re where
  "quote3 = one_of [sq, dq, bq]"

definition nquote3 :: re where
  "nquote3 = none_of [sq, dq, bq]"

definition quote2 :: re where
  "quote2 = one_of [sq, dq]"

definition nquote2 :: re where
  "nquote2 = none_of [sq, dq]"

text \<open>\<^verbatim>\<open>expect\s*\(\<close>, \<^verbatim>\<open>(?:it|test)\s*\(\<close> and \<^verbatim>\<open>describe\s*\(\<close>.\<close>

definition pat_expect :: re where
  "pat_expect = seqs [lit ''expect'', sps, chr CHR ''('']"

definition pat_test_decl :: re where
  "pat_test_decl = seqs [it_or_test, sps, chr CHR ''('']"

definition pat_describe :: re where
  "pat_describe = seqs [lit ''describe'', sps, chr CHR ''('']"

text \<open>
  The test block pattern of four rules:
  \<^verbatim>\<open>(?:it|test)\s*\(\s*['"`]([^'"`]+)['"`]\s*,\s*(?:async\s*)?\([^)]*\)\s*=>\s*\{([^}]*(?:\{[^}]*\}[^}]*)*)\}\<close>
\<close>

definition pat_test_block :: re where
  "pat_test_block =
     seqs [it_or_test, sps, chr CHR ''('', sps, quote3, Grp 1 (Plus nquote3), quote3, sps,
           chr CHR '','', sps, Opt (Seq (lit ''async'') sps),
           chr CHR ''('', Star (none_of '')''), chr CHR '')'', sps, lit ''=>'', sps,
           chr CHR ''{'',
           Grp 2 (Seq (Star (none_of ''}''))
                    (Star (seqs [chr CHR ''{'', Star (none_of ''}''), chr CHR ''}'',
                                 Star (none_of ''}'')]))),
           chr CHR ''}'']"

subsection \<open>Flaky test detection rules\<close>

text \<open>
  \<^verbatim>\<open>setTimeout\s*\([^,]+,\s*\d+\)\<close>, \<^verbatim>\<open>setInterval\s*\([^,]+,\s*\d+\)\<close>,
  \<^verbatim>\<open>new\s+Promise\s*\(\s*(?:resolve|r)\s*=>\s*setTimeout\<close>,
  \<^verbatim>\<open>await\s+new\s+Promise\s*\(\s*r\s*=>\s*setTimeout\s*\(\s*r\s*,\<close>
\<close>

definition timingPatterns :: "re list" where
  "timingPatterns =
     [seqs [lit ''setTimeout'', sps, chr CHR ''('', Plus (none_of '',''), chr CHR '','', sps,
            Plus dg, chr CHR '')''],
      seqs [lit ''setInterval'', sps, chr CHR ''('', Plus (none_of '',''), chr CHR '','', sps,
            Plus dg, chr CHR '')''],
      seqs [lit ''new'', sp1, lit ''Promise'', sps, chr CHR ''('', sps,
            Alt (lit ''resolve'') (lit ''r''), sps, lit ''=>'', sps, lit ''setTimeout''],
      seqs [lit ''await'', sp1, lit ''new'', sp1, lit ''Promise'', sps, chr CHR ''('', sps,
            lit ''r'', sps, lit ''=>'', sps, lit ''setTimeout'', sps, chr CHR ''('', sps,
            lit ''r'', sps, chr CHR '','']]"

definition detect_timing_dependency :: "string \<Rightarrow> string \<Rightarrow> exn + RuleViolation list" where
  "detect_timing_dependency content filename =
     Inr (per_match ''flaky/timing-dependency'' content timingPatterns)"

text \<open>
  \<^verbatim>\<open>Math\.random\s*\(\)\<close>, \<^verbatim>\<open>crypto\.randomUUID\s*\(\)\<close>, \<^verbatim>\<open>uuid\s*\(\)\<close>,
  \<^verbatim>\<open>faker\.\w+\<close>, \<^verbatim>\<open>Date\.now\s*\(\)\<close>, \<^verbatim>\<open>new\s+Date\s*\(\s*\)\<close>
\<close>

definition randomPatterns :: "re list" where
  "randomPatterns =
     [seqs [lit ''Math.random'', sps, lit ''()''],
      seqs [lit ''crypto.randomUUID'', sps, lit ''()''],
      seqs [lit ''uuid'', sps, lit ''()''],
      seqs [lit ''faker.'', Plus wd],
      seqs [lit ''Date.now'', sps, lit ''()''],
      seqs [lit ''new'', sp1, lit ''Date'', sps, chr CHR ''('', sps, chr CHR '')'']]"

definition detect_random_data :: "string \<Rightarrow> string \<Rightarrow> exn + RuleViolation list" where
  "detect_random_data content filename =
     Inr (concat (map (\<lambda>p. concat (map (\<lambda>m.
            if includes_any content [''faker.seed'', ''Math.seedrandom''] then []
            else [violation ''flaky/random-data'' (lm_line m)])
          (matchAllWithLineNumbers content p))) randomPatterns))"

text \<open>
  \<^verbatim>\<open>(?<!await\s+)(?<!return\s+)fetch\s*\(\<close>,
  \<^verbatim>\<open>(?<!await\s+)(?<!return\s+)axios\.\w+\s*\(\<close>,
  \<^verbatim>\<open>\.then\s*\([^)]*\)\s*;?\s*\n\s*expect\<close>.
  The source also collects the matches of a fourth pattern (\<^verbatim>\<open>fireAndForget\<close>) and
  never reads them.
\<close>

definition unawaitedPatterns :: "re list" where
  "unawaitedPatterns =
     [seqs [not_behind (Seq (lit ''await'') sp1), not_behind (Seq (lit ''return'') sp1),
            lit ''fetch'', sps, chr CHR ''(''],
      seqs [not_behind (Seq (lit ''await'') sp1), not_behind (Seq (lit ''return'') sp1),
            lit ''axios.'', Plus wd, sps, chr CHR ''(''],
      seqs [lit ''.then'', sps, chr CHR ''('', Star (none_of '')''), chr CHR '')'', sps,
            Opt (chr CHR '';''), sps, chr (CHR 0x0A), sps, lit ''expect'']]"

definition detect_async_without_await :: "string \<Rightarrow> string \<Rightarrow> exn + RuleViolation list" where
  "detect_async_without_await content filename =
     Inr (per_match ''flaky/async-without-await'' content unawaitedPatterns)"

text \<open>
  \<^verbatim>\<open>(?:^|\n)\s*(?:let|var)\s+\w+\s*=[^;]+;(?=[\s\S]*(?:beforeEach|beforeAll|it|test|describe))\<close>
\<close>

definition pat_global_mutation :: re where
  "pat_global_mutation =
     seqs [Alt Bol (chr (CHR 0x0A)), sps, Alt (lit ''let'') (lit ''var''), sp1, Plus wd, sps,
           chr CHR ''='', Plus (none_of '';''), chr CHR '';'',
           Ahead (Seq (Star anychar)
                    (alts [lit ''beforeEach'', lit ''beforeAll'', lit ''it'', lit ''test'',
                           lit ''describe'']))]"

definition detect_shared_state :: "string \<Rightarrow> string \<Rightarrow> exn + RuleViolation list" where
  "detect_shared_state content filename =
     Inr (concat (map (\<lambda>m.
            if \<not> includes_str (lm_snippet m) ''const'' \<and> \<not> includes_str (lm_snippet m) ''//''
            then [violation ''flaky/shared-state'' (lm_line m)] else [])
          (matchAllWithLineNumbers content pat_global_mutation)))"

text \<open>\<^verbatim>\<open>(?:fetch|axios|http|https)\s*[\.\(]\<close>\<close>

definition pat_network_call :: re where
  "pat_network_call =
     seqs [alts [lit ''fetch'', lit ''axios'', lit ''http'', lit ''https''], sps, one_of ''.('']"

definition detect_network_dependency :: "string \<Rightarrow> string \<Rightarrow> exn + RuleViolation list" where
  "detect_network_dependency content filename =
     (if includes_any filename [''.e2e.'', ''.integration.''] then Inr []
      else
        let hasMocking = includes_any content [''mock'', ''Mock'', ''nock'', ''msw'', ''fetchMock''];
            networkCalls = matchAllWithLineNumbers content pat_network_call
        in if \<not> hasMocking \<and> length networkCalls > 0
           then Inr (map (\<lambda>m. violation ''flaky/network-dependency'' (lm_line m)) networkCalls)
           else Inr [])"

definition flakyTestRules :: "QualityRule list" where
  "flakyTestRules =
     [\<lparr>rule_id = ''flaky/timing-dependency'', name = ''Timing Dependency'',
       description = ''Tests that depend on specific timing are flaky'',
       category = Flaky, severity = Error, weight = 8, detect = detect_timing_dependency\<rparr>,
      \<lparr>rule_id = ''flaky/random-data'', name = ''Random Data Without Seed'',
       description = ''Tests using random data without seeds are non-deterministic'',
       category = Flaky, severity = Warning, weight = 6, detect = detect_random_data\<rparr>,
      \<lparr>rule_id = ''flaky/async-without-await'', name = ''Async Without Await'',
       description = ''Async operations without proper awaiting cause race conditions'',
       category = Flaky, severity = Error, weight = 9, detect = detect_async_without_await\<rparr>,
      \<lparr>rule_id = ''flaky/shared-state'', name = ''Shared Mutable State'',
       description = ''Tests sharing mutable state can interfere with each other'',
       category = Flaky, severity = Error, weight = 8, detect = detect_shared_state\<rparr>,
      \<lparr>rule_id = ''flaky/network-dependency'', name = ''Network Dependency'',
       description = ''Tests making real network calls are unreliable'',
       category = Flaky, severity = Error, weight = 9, detect = detect_network_dependency\<rparr>]"

subsection \<open>Testing theater rules\<close>

text \<open>
  The assertion markers of \<^verbatim>\<open>theater/no-assertions\<close>: \<^verbatim>\<open>expect\s*\(\<close>,
  \<^verbatim>\<open>assert[\.\(]\<close>, \<^verbatim>\<open>should[\.\(]\<close>, \<^verbatim>\<open>\.to\.\<close>, \<^verbatim>\<open>\.toBe\<close>, \<^verbatim>\<open>toThrow\<close>,
  \<^verbatim>\<open>rejects\<close>, \<^verbatim>\<open>resolves\<close>.
\<close>

definition pat_assert :: re where
  "pat_assert = Seq (lit ''assert'') (one_of ''.('')"

definition pat_should :: re where
  "pat_should = Seq (lit ''should'') (one_of ''.('')"

definition assertionMarkers :: "re list" where
  "assertionMarkers =
     [pat_expect, pat_assert, pat_should, lit ''.to.'', lit ''.toBe'', lit ''toThrow'',
      lit ''rejects'', lit ''resolves'']"

definition detect_no_assertions :: "string \<Rightarrow> string \<Rightarrow> exn + RuleViolation list" where
  "detect_no_assertions content filename =
     Inr (concat (map (\<lambda>m.
            let testBody = grp 2 (lm_match m);
                hasAssertion = test_any assertionMarkers testBody
            in if \<not> hasAssertion then [violation ''theater/no-assertions'' (lm_line m)] else [])
          (matchAllWithLineNumbers content pat_test_block)))"

text \<open>
  \<^verbatim>\<open>expect\s*\(\s*true\s*\)\s*\.toBe\s*\(\s*true\s*\)\<close>,
  \<^verbatim>\<open>expect\s*\(\s*1\s*\)\s*\.toBe\s*\(\s*1\s*\)\<close>,
  \<^verbatim>\<open>expect\s*\(\s*['"`][^'"`]*['"`]\s*\)\s*\.toBe\s*\(\s*['"`][^'"`]*['"`]\s*\)\<close>,
  \<^verbatim>\<open>expect\s*\(\s*\d+\s*\+\s*\d+\s*\)\s*\.toBe\s*\(\s*\d+\s*\)\<close>,
  \<^verbatim>\<open>assert\.ok\s*\(\s*true\s*\)\<close>,
  \<^verbatim>\<open>expect\s*\(\s*['"]\w+['"]\s*\)\s*\.toContain\s*\(\s*['"]\w*['"]\s*\)\<close>
\<close>

definition alwaysTruePatterns :: "re list" where
  "alwaysTruePatterns =
     [seqs [lit ''expect'', sps, chr CHR ''('', sps, lit ''true'', sps, chr CHR '')'', sps,
            lit ''.toBe'', sps, chr CHR ''('', sps, lit ''true'', sps, chr CHR '')''],
      seqs [lit ''expect'', sps, chr CHR ''('', sps, lit ''1'', sps, chr CHR '')'', sps,
            lit ''.toBe'', sps, chr CHR ''('', sps, lit ''1'', sps, chr CHR '')''],
      seqs [lit ''expect'', sps, chr CHR ''('', sps, quote3, Star nquote3, quote3, sps,
            chr CHR '')'', sps, lit ''.toBe'', sps, chr CHR ''('', sps, quote3, Star nquote3,
            quote3, sps, chr CHR '')''],
      seqs [lit ''expect'', sps, chr CHR ''('', sps, Plus dg, sps, chr CHR ''+'', sps, Plus dg,
            sps, chr CHR '')'', sps, lit ''.toBe'', sps, chr CHR ''('', sps, Plus dg, sps,
            chr CHR '')''],
      seqs [lit ''assert.ok'', sps, chr CHR ''('', sps, lit ''true'', sps, chr CHR '')''],
      seqs [lit ''expect'', sps, chr CHR ''('', sps, quote2, Plus wd, quote2, sps,
            chr CHR '')'', sps, lit ''.toContain'', sps, chr CHR ''('', sps, quote2, Star wd,
            quote2, sps, chr CHR '')'']]"

definition detect_always_true :: "string \<Rightarrow> string \<Rightarrow> exn + RuleViolation list" where
  "detect_always_true content filename =
     Inr (per_match ''theater/always-true'' content alwaysTruePatterns)"

text \<open>
  \<^verbatim>\<open>(?:it|test)\s*\(\s*['"`]([^'"`]+)['"`]\s*,\s*(?:async\s*)?\(\s*\)\s*=>\s*\{\s*\}\s*\)\<close>
\<close>

definition pat_empty_test :: re where
  "pat_empty_test =
     seqs [it_or_test, sps, chr CHR ''('', sps, quote3, Grp 1 (Plus nquote3), quote3, sps,
           chr CHR '','', sps, Opt (Seq (lit ''async'') sps),
           chr CHR ''('', sps, chr CHR '')'', sps, lit ''=>'', sps,
           chr CHR ''{'', sps, chr CHR ''}'', sps, chr CHR '')'']"

definition detect_empty_test :: "string \<Rightarrow> string \<Rightarrow> exn + RuleViolation list" where
  "detect_empty_test content filename =
     Inr (per_match ''theater/empty-test'' content [pat_empty_test])"

text \<open>\<^verbatim>\<open>console\.\w+\s*\(\<close> and \<^verbatim>\<open>expect\s*\(|assert[\.\(]|should[\.\(]\<close>\<close>

definition pat_console :: re where
  "pat_console = seqs [lit ''console.'', Plus wd, sps, chr CHR ''('']"

definition pat_any_assertion :: re where
  "pat_any_assertion = alts [pat_expect, pat_assert, pat_should]"

definition detect_console_only :: "string \<Rightarrow> string \<Rightarrow> exn + RuleViolation list" where
  "detect_console_only content filename =
     Inr (concat (map (\<lambda>m.
            let testBody = grp 2 (lm_match m);
                hasConsole = test pat_console testBody;
                hasAssertion = test pat_any_assertion testBody
            in if hasConsole \<and> \<not> hasAssertion
               then [violation ''theater/console-only'' (lm_line m)] else [])
          (matchAllWithLineNumbers content pat_test_block)))"

text \<open>
  \<^verbatim>\<open>expect\s*\(\s*undefined\s*\)\s*\.(?!toBeUndefined|toBeDefined)\<close>,
  \<^verbatim>\<open>expect\s*\(\s*null\s*\)\s*\.(?!toBeNull|toBe\(null)\<close>,
  \<^verbatim>\<open>expect\s*\(\s*\)\s*\.\<close>
\<close>

definition suspiciousPatterns :: "re list" where
  "suspiciousPatterns =
     [seqs [lit ''expect'', sps, chr CHR ''('', sps, lit ''undefined'', sps, chr CHR '')'', sps,
            chr CHR ''.'', NotAhead (Alt (lit ''toBeUndefined'') (lit ''toBeDefined''))],
      seqs [lit ''expect'', sps, chr CHR ''('', sps, lit ''null'', sps, chr CHR '')'', sps,
            chr CHR ''.'', NotAhead (Alt (lit ''toBeNull'') (lit ''toBe(null''))],
      seqs [lit ''expect'', sps, chr CHR ''('', sps, chr CHR '')'', sps, chr CHR ''.'']]"

definition detect_expect_nothing :: "string \<Rightarrow> string \<Rightarrow> exn + RuleViolation list" where
  "detect_expect_nothing content filename =
     Inr (per_match ''theater/expect-nothing'' content suspiciousPatterns)"

definition theaterRules :: "QualityRule list" where
  "theaterRules =
     [\<lparr>rule_id = ''theater/no-assertions'', name = ''No Assertions'',
       description = ''Tests without assertions prove nothing'',
       category = Theater, severity = Error, weight = 10, detect = detect_no_assertions\<rparr>,
      \<lparr>rule_id = ''theater/always-true'', name = ''Always-True Assertion'',
       description = ''Assertions that always pass are meaningless'',
       category = Theater, severity = Error, weight = 9, detect = detect_always_true\<rparr>,
      \<lparr>rule_id = ''theater/empty-test'', name = ''Empty Test'',
       description = ''Empty tests provide no coverage'',
       category = Theater, severity = Error, weight = 10, detect = detect_empty_test\<rparr>,
      \<lparr>rule_id = ''theater/console-only'', name = ''Console-Only Test'',
       description = ''Tests that only console.log without asserting'',
       category = Theater, severity = Warning, weight = 7, detect = detect_console_only\<rparr>,
      \<lparr>rule_id = ''theater/expect-nothing'', name = ''Expect on Undefined'',
       description = ''Expecting on undefined/null without meaningful comparison'',
       category = Theater, severity = Warning, weight = 6, detect = detect_expect_nothing\<rparr>]"

subsection \<open>Over-mocking rules\<close>

text \<open>
  The five mock counters of \<^verbatim>\<open>mock/excessive-mocking\<close>: \<^verbatim>\<open>jest\.mock\s*\(\<close>,
  \<^verbatim>\<open>vi\.mock\s*\(\<close>, \<^verbatim>\<open>(?:jest|vi)\.spyOn\s*\(\<close>, \<^verbatim>\<open>(?:jest|vi)\.fn\s*\(\<close>,
  \<^verbatim>\<open>\.mockImplementation\s*\(\<close>.
\<close>

definition jest_or_vi :: re where
  "jest_or_vi = Alt (lit ''jest'') (lit ''vi'')"

definition mockPatterns :: "re list" where
  "mockPatterns =
     [seqs [lit ''jest.mock'', sps, chr CHR ''(''],
      seqs [lit ''vi.mock'', sps, chr CHR ''(''],
      seqs [jest_or_vi, lit ''.spyOn'', sps, chr CHR ''(''],
      seqs [jest_or_vi, lit ''.fn'', sps, chr CHR ''(''],
      seqs [lit ''.mockImplementation'', sps, chr CHR ''('']]"

definition totalMocks :: "string \<Rightarrow> nat" where
  "totalMocks content = foldl (+) 0 (map (\<lambda>p. count_matches p content) mockPatterns)"

definition expectCount :: "string \<Rightarrow> nat" where
  "expectCount content = count_matches pat_expect content"

definition detect_excessive_mocking :: "string \<Rightarrow> string \<Rightarrow> exn + RuleViolation list" where
  "detect_excessive_mocking content filename =
     (if totalMocks content > 5 \<and> totalMocks content > expectCount content * 2
      then Inr [violation ''mock/excessive-mocking'' 1]
      else Inr [])"

text \<open>
  \<^verbatim>\<open>import\s+.*\s+from\s+['"]([^'"]+)['"]\<close> and
  \<^verbatim>\<open>(?:jest|vi)\.mock\s*\(\s*['"]([^'"]+)['"]\<close>
\<close>

definition pat_import :: re where
  "pat_import =
     seqs [lit ''import'', sp1, Star dot, sp1, lit ''from'', sp1, quote2, Grp 1 (Plus nquote2),
           quote2]"

definition pat_mock_path :: re where
  "pat_mock_path =
     seqs [jest_or_vi, lit ''.mock'', sps, chr CHR ''('', sps, quote2, Grp 1 (Plus nquote2),
           quote2]"

definition detect_mocking_what_you_test :: "string \<Rightarrow> string \<Rightarrow> exn + RuleViolation list" where
  "detect_mocking_what_you_test content filename =
     (let relativeImports =
            filter (\<lambda>i. startsWith i ''./'' \<or> startsWith i ''../'')
              (map (grp 1) (match_all pat_import content))
      in Inr (concat (map (\<lambda>mockMatch.
                let mockedPath = grp 1 mockMatch
                in if list_ex (\<lambda>imp. imp = mockedPath \<or> endsWith imp mockedPath \<or>
                                      endsWith mockedPath (remove_first imp ''./''))
                        relativeImports
                   then [violation ''mock/mocking-what-you-test''
                           (findLineNumber content (index mockMatch))]
                   else [])
              (match_all pat_mock_path content))))"

text \<open>
  \<^verbatim>\<open>\.mockReturnValue\s*\([^)]+\)\<close>; the matches of
  \<^verbatim>\<open>\.mockImplementation\s*\(\s*\(\s*\)\s*=>\<close> are collected by the source and never read.
\<close>

definition pat_mock_return :: re where
  "pat_mock_return =
     seqs [lit ''.mockReturnValue'', sps, chr CHR ''('', Plus (none_of '')''), chr CHR '')'']"

definition detect_mock_return_ignores_input :: "string \<Rightarrow> string \<Rightarrow> exn + RuleViolation list" where
  "detect_mock_return_ignores_input content filename =
     (let fixedReturnPatterns = matchAllWithLineNumbers content pat_mock_return
      in if length fixedReturnPatterns > 3
         then Inr [violation ''mock/mock-return-ignores-input''
                     (case fixedReturnPatterns of
                        [] \<Rightarrow> 1
                      | m # _ \<Rightarrow> if lm_line m = 0 then 1 else lm_line m)]
         else Inr [])"

definition overMockingRules :: "QualityRule list" where
  "overMockingRules =
     [\<lparr>rule_id = ''mock/excessive-mocking'', name = ''Excessive Mocking'',
       description = ''Over-mocking defeats the purpose of testing'',
       category = OverMocking, severity = Warning, weight = 7,
       detect = detect_excessive_mocking\<rparr>,
      \<lparr>rule_id = ''mock/mocking-what-you-test'', name = ''Mocking What You Test'',
       description = ''Mocking the module under test defeats the purpose'',
       category = OverMocking, severity = Error, weight = 9,
       detect = detect_mocking_what_you_test\<rparr>,
      \<lparr>rule_id = ''mock/mock-return-ignores-input'', name = ''Mock Ignores Input'',
       description = ''Mocks that always return the same value regardless of input'',
       category = OverMocking, severity = Info, weight = 3,
       detect = detect_mock_return_ignores_input\<rparr>]"

subsection \<open>Assertion rules\<close>

text \<open>
  \<^verbatim>\<open>expect\s*\([^)]+\)\s*\.toBeTruthy\s*\(\)\<close>, \<^verbatim>\<open>...\.toBeFalsy\s*\(\)\<close>,
  \<^verbatim>\<open>...\.toBeDefined\s*\(\)\<close>, \<^verbatim>\<open>expect\s*\(typeof\s+\w+\)\s*\.toBe\s*\(\<close>
\<close>

definition weak_call :: "string \<Rightarrow> re" where
  "weak_call matcher =
     seqs [lit ''expect'', sps, chr CHR ''('', Plus (none_of '')''), chr CHR '')'', sps,
           lit matcher, sps, lit ''()'']"

definition weakPatterns :: "re list" where
  "weakPatterns =
     [weak_call ''.toBeTruthy'', weak_call ''.toBeFalsy'', weak_call ''.toBeDefined'',
      seqs [lit ''expect'', sps, lit ''(typeof'', sp1, Plus wd, chr CHR '')'', sps,
            lit ''.toBe'', sps, chr CHR ''('']]"

definition detect_weak_assertion :: "string \<Rightarrow> string \<Rightarrow> exn + RuleViolation list" where
  "detect_weak_assertion content filename =
     Inr (per_match ''assertion/weak-assertion'' content weakPatterns)"

text \<open>
  \<^verbatim>\<open>(?:it|test)\s*\([^,]+,\s*async\<close>; and \<^verbatim>\<open>\.rejects\.\<close>, \<^verbatim>\<open>toThrow\<close>,
  \<^verbatim>\<open>\.catch\s*\(\<close>, \<^verbatim>\<open>try\s*\{[^}]*\}\s*catch\<close>
\<close>

definition pat_async_test :: re where
  "pat_async_test =
     seqs [it_or_test, sps, chr CHR ''('', Plus (none_of '',''), chr CHR '','', sps, lit ''async'']"

definition errorAssertionPatterns :: "re list" where
  "errorAssertionPatterns =
     [lit ''.rejects.'', lit ''toThrow'', seqs [lit ''.catch'', sps, chr CHR ''(''],
      seqs [lit ''try'', sps, chr CHR ''{'', Star (none_of ''}''), chr CHR ''}'', sps,
            lit ''catch'']]"

definition detect_no_error_assertion :: "string \<Rightarrow> string \<Rightarrow> exn + RuleViolation list" where
  "detect_no_error_assertion content filename =
     (let hasAsyncTests = test pat_async_test content;
          hasErrorAssertions = test_any errorAssertionPatterns content
      in if hasAsyncTests \<and> \<not> hasErrorAssertions
         then Inr [violation ''assertion/no-error-assertion'' 1]
         else Inr [])"

definition detect_single_assertion_syndrome :: "string \<Rightarrow> string \<Rightarrow> exn + RuleViolation list" where
  "detect_single_assertion_syndrome content filename =
     (let testCount = count_matches pat_test_decl content;
          assertionCount = count_matches pat_expect content
      in if testCount \<ge> 3 \<and> assertionCount < testCount
         then Inr [violation ''assertion/single-assertion-syndrome'' 1]
         else Inr [])"

definition assertionRules :: "QualityRule list" where
  "assertionRules =
     [\<lparr>rule_id = ''assertion/weak-assertion'', name = ''Weak Assertion'',
       description = ''Using weak assertions that barely verify anything'',
       category = Assertions, severity = Warning, weight = 5, detect = detect_weak_assertion\<rparr>,
      \<lparr>rule_id = ''assertion/no-error-assertion'', name = ''No Error Assertions'',
       description = ''Async code should verify error handling'',
       category = Assertions, severity = Info, weight = 4,
       detect = detect_no_error_assertion\<rparr>,
      \<lparr>rule_id = ''assertion/single-assertion-syndrome'',
       name = ''Single Assertion Per Test File'',
       description = ''Test file with very few assertions may be incomplete'',
       category = Assertions, severity = Info, weight = 3,
       detect = detect_single_assertion_syndrome\<rparr>]"

subsection \<open>Test isolation rules\<close>

text \<open>
  \<^verbatim>\<open>(?:let|var)\s+\w+\s*;?\s*\n[\s\S]*?beforeEach[\s\S]*?(?:it|test)\s*\(\<close>,
  \<^verbatim>\<open>(?:it|test)\s*\([^)]*\)\s*=>\s*\{[^}]*(?:\w+\s*=\s*[^=]|\.push\(|\.pop\(|\.splice\()\<close>,
  \<^verbatim>\<open>beforeEach\s*\(\<close>,
  \<^verbatim>\<open>beforeEach\s*\([^)]*\)\s*=>\s*\{[^}]*(?:\w+\s*=\s*[\[\{]|\.length\s*=\s*0)\<close>
\<close>

definition pat_shared_decl :: re where
  "pat_shared_decl =
     seqs [Alt (lit ''let'') (lit ''var''), sp1, Plus wd, sps, Opt (chr CHR '';''), sps,
           chr (CHR 0x0A), Lazy anychar, lit ''beforeEach'', Lazy anychar, it_or_test, sps,
           chr CHR ''('']"

definition pat_modifies_in_test :: re where
  "pat_modifies_in_test =
     seqs [it_or_test, sps, chr CHR ''('', Star (none_of '')''), chr CHR '')'', sps, lit ''=>'',
           sps, chr CHR ''{'', Star (none_of ''}''),
           alts [seqs [Plus wd, sps, chr CHR ''='', sps, none_of ''=''],
                 lit ''.push('', lit ''.pop('', lit ''.splice('']]"

definition pat_before_each :: re where
  "pat_before_each = seqs [lit ''beforeEach'', sps, chr CHR ''('']"

definition pat_proper_reset :: re where
  "pat_proper_reset =
     seqs [lit ''beforeEach'', sps, chr CHR ''('', Star (none_of '')''), chr CHR '')'', sps,
           lit ''=>'', sps, chr CHR ''{'', Star (none_of ''}''),
           Alt (seqs [Plus wd, sps, chr CHR ''='', sps, one_of ''[{''])
               (seqs [lit ''.length'', sps, chr CHR ''='', sps, chr CHR ''0''])]"

definition detect_test_order_dependency :: "string \<Rightarrow> string \<Rightarrow> exn + RuleViolation list" where
  "detect_test_order_dependency content filename =
     (let hasSharedState = test pat_shared_decl content;
          modifiesInTest = test pat_modifies_in_test content
      in if hasSharedState \<and> modifiesInTest
         then
           let hasBeforeEach = test pat_before_each content;
               hasProperReset = test pat_proper_reset content
           in if \<not> hasBeforeEach \<or> \<not> hasProperReset
              then Inr [violation ''isolation/test-order-dependency'' 1]
              else Inr []
         else Inr [])"

text \<open>
  \<^verbatim>\<open>process\.env\.\w+\s*=\<close>, \<^verbatim>\<open>global\.\w+\s*=\<close>, \<^verbatim>\<open>window\.\w+\s*=\<close>,
  \<^verbatim>\<open>document\.\w+\s*=\<close>. Whether an \<^verbatim>\<open>afterEach\<close> exists only changes the message.
\<close>

definition global_write :: "string \<Rightarrow> re" where
  "global_write obj = seqs [lit obj, Plus wd, sps, chr CHR ''='']"

definition globalModifications :: "re list" where
  "globalModifications =
     [global_write ''process.env.'', global_write ''global.'', global_write ''window.'',
      global_write ''document.'']"

definition detect_global_state :: "string \<Rightarrow> string \<Rightarrow> exn + RuleViolation list" where
  "detect_global_state content filename =
     Inr (per_match ''isolation/global-state'' content globalModifications)"

text \<open>
  \<^verbatim>\<open>(?:writeFile|writeFileSync|mkdir|mkdirSync|appendFile)\s*\(\<close>; and the cleanup
  markers \<^verbatim>\<open>(?:unlink|unlinkSync|rm|rmSync|rmdir)\s*\(\<close>,
  \<^verbatim>\<open>afterEach\s*\([^)]*\)\s*=>\s*\{[^}]*(?:unlink|rm)\<close>, \<^verbatim>\<open>/tmp|temp/i\<close>
\<close>

definition pat_fs_operation :: re where
  "pat_fs_operation =
     seqs [alts [lit ''writeFile'', lit ''writeFileSync'', lit ''mkdir'', lit ''mkdirSync'',
                 lit ''appendFile''], sps, chr CHR ''('']"

definition cleanupPatterns :: "re list" where
  "cleanupPatterns =
     [seqs [alts [lit ''unlink'', lit ''unlinkSync'', lit ''rm'', lit ''rmSync'', lit ''rmdir''],
            sps, chr CHR ''(''],
      seqs [lit ''afterEach'', sps, chr CHR ''('', Star (none_of '')''), chr CHR '')'', sps,
            lit ''=>'', sps, chr CHR ''{'', Star (none_of ''}''),
            Alt (lit ''unlink'') (lit ''rm'')],
      Alt (lit_i ''tmp'') (lit_i ''temp'')]"

definition detect_filesystem_side_effects :: "string \<Rightarrow> string \<Rightarrow> exn + RuleViolation list" where
  "detect_filesystem_side_effects content filename =
     (let fsOperations = matchAllWithLineNumbers content pat_fs_operation;
          hasCleanup = test_any cleanupPatterns content
      in if length fsOperations > 0 \<and> \<not> hasCleanup
         then Inr (map (\<lambda>m. violation ''isolation/filesystem-side-effects'' (lm_line m))
                     fsOperations)
         else Inr [])"

definition isolationRules :: "QualityRule list" where
  "isolationRules =
     [\<lparr>rule_id = ''isolation/test-order-dependency'', name = ''Test Order Dependency'',
       description = ''Tests that depend on execution order are fragile'',
       category = Isolation, severity = Warning, weight = 7,
       detect = detect_test_order_dependency\<rparr>,
      \<lparr>rule_id = ''isolation/global-state'', name = ''Global State Modification'',
       description = ''Tests modifying global state can affect other tests'',
       category = Isolation, severity = Error, weight = 8, detect = detect_global_state\<rparr>,
      \<lparr>rule_id = ''isolation/filesystem-side-effects'', name = ''Filesystem Side Effects'',
       description = ''Tests creating files without cleanup'',
       category = Isolation, severity = Warning, weight = 6,
       detect = detect_filesystem_side_effects\<rparr>]"

subsection \<open>Maintainability rules\<close>

text \<open>
  \<^verbatim>\<open>(?:it|test)\s*\(\s*['"`]([^'"`]+)['"`]\<close>; the bad names are
  \<^verbatim>\<open>/^test\s*\d+$/i\<close>, \<^verbatim>\<open>/^it works$/i\<close>, \<^verbatim>\<open>/^should work$/i\<close>,
  \<^verbatim>\<open>/^basic test$/i\<close>, \<^verbatim>\<open>/^test$/i\<close>, \<^verbatim>\<open>/function\s+\w+$/\<close>.
  The inner loop of the source stops at the first bad pattern that matches, so a name
  gets at most one violation from it, and one more when it is shorter than five
  characters.
\<close>

definition pat_test_name :: re where
  "pat_test_name =
     seqs [it_or_test, sps, chr CHR ''('', sps, quote3, Grp 1 (Plus nquote3), quote3]"

definition badPatterns :: "re list" where
  "badPatterns =
     [seqs [Bol, lit_i ''test'', sps, Plus dg, Eol],
      seqs [Bol, lit_i ''it works'', Eol],
      seqs [Bol, lit_i ''should work'', Eol],
      seqs [Bol, lit_i ''basic test'', Eol],
      seqs [Bol, lit_i ''test'', Eol],
      seqs [lit ''function'', sp1, Plus wd, Eol]]"

definition detect_poor_test_name :: "string \<Rightarrow> string \<Rightarrow> exn + RuleViolation list" where
  "detect_poor_test_name content filename =
     Inr (concat (map (\<lambda>m.
            let name = grp 1 (lm_match m)
            in (if test_any badPatterns name
                then [violation ''maintain/poor-test-name'' (lm_line m)] else []) @
               (if length name < 5 \<and> \<not> includes_str name ''should''
                then [violation ''maintain/poor-test-name'' (lm_line m)] else []))
          (matchAllWithLineNumbers content pat_test_name)))"

text \<open>The brace counter of \<^verbatim>\<open>maintain/deeply-nested\<close>: the deepest nesting seen.\<close>

fun maxNesting :: "string \<Rightarrow> int \<Rightarrow> int \<Rightarrow> int" where
  "maxNesting [] currentNesting mx = mx"
| "maxNesting (ch # rest) currentNesting mx =
     (let c1 = (if ch = CHR ''{'' then currentNesting + 1 else currentNesting);
          c2 = (if ch = CHR ''}'' then c1 - 1 else c1)
      in maxNesting rest c2 (max mx c2))"

definition detect_deeply_nested :: "string \<Rightarrow> string \<Rightarrow> exn + RuleViolation list" where
  "detect_deeply_nested content filename =
     (if count_matches pat_describe content > 4 \<and> maxNesting content 0 0 > 8
      then Inr [violation ''maintain/deeply-nested'' 1]
      else Inr [])"

definition detect_large_test_file :: "string \<Rightarrow> string \<Rightarrow> exn + RuleViolation list" where
  "detect_large_test_file content filename =
     (if length (split_nl content) > 500
      then Inr [violation ''maintain/large-test-file'' 1]
      else Inr [])"

text \<open>\<^verbatim>\<open>expect\s*\([^)]+\)\s*\.toBe\s*\(\s*(\d{3,})\s*\)\<close>\<close>

definition pat_magic_number :: re where
  "pat_magic_number =
     seqs [lit ''expect'', sps, chr CHR ''('', Plus (none_of '')''), chr CHR '')'', sps,
           lit ''.toBe'', sps, chr CHR ''('', sps, Grp 1 (seqs [dg, dg, dg, Star dg]), sps,
           chr CHR '')'']"

definition detect_magic_numbers :: "string \<Rightarrow> string \<Rightarrow> exn + RuleViolation list" where
  "detect_magic_numbers content filename =
     Inr (per_match ''maintain/magic-numbers'' content [pat_magic_number])"

text \<open>
  \<^verbatim>\<open>\/\/\s*(?:it|test|describe)\s*\(\<close> and
  \<^verbatim>\<open>\/\*[\s\S]*?(?:it|test|describe)\s*\([\s\S]*?\*\/\<close>
\<close>

definition it_test_describe :: re where
  "it_test_describe = alts [lit ''it'', lit ''test'', lit ''describe'']"

definition commentedPatterns :: "re list" where
  "commentedPatterns =
     [seqs [lit ''//'', sps, it_test_describe, sps, chr CHR ''(''],
      seqs [lit ''/*'', Lazy anychar, it_test_describe, sps, chr CHR ''('', Lazy anychar,
            lit ''*/'']]"

definition detect_commented_test :: "string \<Rightarrow> string \<Rightarrow> exn + RuleViolation list" where
  "detect_commented_test content filename =
     Inr (per_match ''maintain/commented-test'' content commentedPatterns)"

definition maintainabilityRules :: "QualityRule list" where
  "maintainabilityRules =
     [\<lparr>rule_id = ''maintain/poor-test-name'', name = ''Poor Test Name'',
       description = ''Test names should describe behavior, not implementation'',
       category = Maintainability, severity = Info, weight = 3,
       detect = detect_poor_test_name\<rparr>,
      \<lparr>rule_id = ''maintain/deeply-nested'', name = ''Deeply Nested Tests'',
       description = ''Excessive nesting makes tests hard to read'',
       category = Maintainability, severity = Warning, weight = 4,
       detect = detect_deeply_nested\<rparr>,
      \<lparr>rule_id = ''maintain/large-test-file'', name = ''Large Test File'',
       description = ''Very large test files are hard to maintain'',
       category = Maintainability, severity = Info, weight = 2,
       detect = detect_large_test_file\<rparr>,
      \<lparr>rule_id = ''maintain/magic-numbers'', name = ''Magic Numbers in Tests'',
       description = ''Unexplained magic numbers reduce test clarity'',
       category = Maintainability, severity = Info, weight = 2,
       detect = detect_magic_numbers\<rparr>,
      \<lparr>rule_id = ''maintain/commented-test'', name = ''Commented Out Test'',
       description = ''Commented tests should be deleted or fixed'',
       category = Maintainability, severity = Warning, weight = 4,
       detect = detect_commented_test\<rparr>]"

subsection \<open>Structure rules\<close>

definition detect_missing_describe :: "string \<Rightarrow> string \<Rightarrow> exn + RuleViolation list" where
  "detect_missing_describe content filename =
     (let hasDescribe = test pat_describe content;
          hasTests = test pat_test_decl content
      in if hasTests \<and> \<not> hasDescribe
         then Inr [violation ''structure/missing-describe'' 1]
         else Inr [])"

text \<open>
  \<^verbatim>\<open>/\/\/\s*(?:arrange|act|assert|given|when|then|setup)/i\<close>; bodies of fewer than
  five lines are skipped.
\<close>

definition pat_aaa_comment :: re where
  "pat_aaa_comment =
     seqs [lit ''//'', sps,
           alts [lit_i ''arrange'', lit_i ''act'', lit_i ''assert'', lit_i ''given'',
                 lit_i ''when'', lit_i ''then'', lit_i ''setup'']]"

definition first_piece :: "string list \<Rightarrow> string" where
  "first_piece ps = (case ps of [] \<Rightarrow> [] | p # _ \<Rightarrow> p)"

definition detect_arrange_act_assert :: "string \<Rightarrow> string \<Rightarrow> exn + RuleViolation list" where
  "detect_arrange_act_assert content filename =
     Inr (concat (map (\<lambda>m.
            let body = grp 2 (lm_match m)
            in if length (split_nl body) < 5 then []
               else
                 let hasAAA =
                       (if test pat_aaa_comment body then True
                        else includes_str (first_piece (split_re (lit ''expect'') body))
                               [CHR 0x0A, CHR 0x0A])
                 in if \<not> hasAAA \<and> length body > 200
                    then [violation ''structure/arrange-act-assert'' (lm_line m)] else [])
          (matchAllWithLineNumbers content pat_test_block)))"

text \<open>
  \<^verbatim>\<open>body.split(/expect\s*\(/)\<close>, then for every piece but the first the text after its
  first \<^verbatim>\<open>/\)\s*;/\<close> (up to the next one) is searched for a call \<^verbatim>\<open>\w+\s*\(\<close>.
\<close>

definition pat_close_semi :: re where
  "pat_close_semi = seqs [chr CHR '')'', sps, chr CHR '';'']"

definition pat_call :: re where
  "pat_call = seqs [Plus wd, sps, chr CHR ''('']"

definition betweenCode :: "string \<Rightarrow> string" where
  "betweenCode expectGroup =
     (case split_re pat_close_semi expectGroup of
        p0 # p1 # _ \<Rightarrow> p1
      | _ \<Rightarrow> [])"

definition actCount :: "string \<Rightarrow> nat" where
  "actCount body =
     length (filter (\<lambda>g. test pat_call (betweenCode g)) (tl (split_re pat_expect body)))"

definition detect_multiple_acts :: "string \<Rightarrow> string \<Rightarrow> exn + RuleViolation list" where
  "detect_multiple_acts content filename =
     Inr (concat (map (\<lambda>m.
            if actCount (grp 2 (lm_match m)) \<ge> 2
            then [violation ''structure/multiple-acts'' (lm_line m)] else [])
          (matchAllWithLineNumbers content pat_test_block)))"

definition structureRules :: "QualityRule list" where
  "structureRules =
     [\<lparr>rule_id = ''structure/missing-describe'', name = ''Missing Describe Block'',
       description = ''Tests should be organized in describe blocks'',
       category = Structure, severity = Info, weight = 2, detect = detect_missing_describe\<rparr>,
      \<lparr>rule_id = ''structure/arrange-act-assert'', name = ''Missing AAA Pattern'',
       description = ''Tests should follow Arrange-Act-Assert pattern'',
       category = Structure, severity = Info, weight = 2,
       detect = detect_arrange_act_assert\<rparr>,
      \<lparr>rule_id = ''structure/multiple-acts'', name = ''Multiple Acts Per Test'',
       description = ''Tests with multiple acts are testing multiple things'',
       category = Structure, severity = Warning, weight = 5, detect = detect_multiple_acts\<rparr>]"

subsection \<open>The catalog\<close>

definition allRules :: "QualityRule list" where
  "allRules =
     flakyTestRules @ theaterRules @ overMockingRules @ assertionRules @ isolationRules @
     maintainabilityRules @ structureRules"

fun categoryDescriptions :: "RuleCategory \<Rightarrow> string" where
  "categoryDescriptions Flaky = ''Flaky Test Detection - Tests that may pass or fail randomly''"
| "categoryDescriptions Theater =
     ''Testing Theater - Tests that appear to test but actually verify nothing''"
| "categoryDescriptions OverMocking =
     ''Over-Mocking - Tests that mock so much they test nothing real''"
| "categoryDescriptions Assertions = ''Assertion Quality - Weak or missing assertions''"
| "categoryDescriptions Isolation =
     ''Test Isolation - Tests that may interfere with each other''"
| "categoryDescriptions Maintainability =
     ''Maintainability - Tests that are hard to understand or maintain''"
| "categoryDescriptions Structure = ''Test Structure - Organization and clarity issues''"

section \<open>The reviewer\<close>

subsection \<open>Floating point numbers\<close>

text \<open>
  The numbers of the source are IEEE 754 doubles. \<open>exponent x\<close> is the binary exponent
  of a rational \<open>x \<noteq> 0\<close>: the \<open>e\<close> with \<open>2 powi e \<le> \<bar>x\<bar> < 2 powi (e + 1)\<close>.
\<close>

definition exponent :: "rat \<Rightarrow> int" where
  "exponent x =
     (let d = bitlen (fst (quotient_of \<bar>x\<bar>)) - bitlen (snd (quotient_of \<bar>x\<bar>))
      in if 2 powi d \<le> \<bar>x\<bar> then d else d - 1)"

text \<open>Rounding to the nearest integer, a tie going to the even one.\<close>

definition roundEven :: "rat \<Rightarrow> int" where
  "roundEven n =
     (let f = \<lfloor>n\<rfloor>; d = n - of_int f
      in if d < 1 / 2 then f else if 1 / 2 < d then f + 1 else if even f then f else f + 1)"

text \<open>
  The double nearest to a rational (round to nearest, ties to even): a multiple of
  \<open>2 powi (e - 52)\<close>, where \<open>e\<close> is the exponent of the number and at least -1022
  (below that the doubles are subnormal and equally spaced).
\<close>

definition dbl :: "rat \<Rightarrow> rat" where
  "dbl x =
     (if x = 0 then 0
      else let q = 2 powi (max (exponent x) (- 1022) - 52)
           in of_int (roundEven (x / q)) * q)"

subsection \<open>Types and constants\<close>

text \<open>
  \<^verbatim>\<open>CategoryScore\<close>; its fields \<^verbatim>\<open>category\<close>, \<^verbatim>\<open>description\<close>, \<^verbatim>\<open>score\<close>,
  \<^verbatim>\<open>weight\<close> and \<^verbatim>\<open>violations\<close> carry the prefix \<open>cs_\<close>, since rules and reviewed
  files have fields of the same names.
\<close>

record CategoryScore =
  cs_category :: RuleCategory
  cs_description :: string
  cs_score :: int
  cs_weight :: int
  cs_violations :: nat
  maxDeduction :: rat
  actualDeduction :: rat

record ReviewedFile =
  path :: string
  violations :: "RuleViolation list"
  score :: int
  scoreBreakdown :: "CategoryScore list"
  testCount :: nat
  assertionCount :: nat

record TopIssue =
  rule :: string
  count :: nat
  issue_severity :: Severity

record ReviewSummary =
  totalFiles :: nat
  totalTests :: nat
  totalAssertions :: nat
  totalViolations :: nat
  overallScore :: int
  summaryBreakdown :: "CategoryScore list"
  violationsByCategory :: "RuleCategory \<Rightarrow> nat"
  violationsBySeverity :: "Severity \<Rightarrow> nat"
  topIssues :: "TopIssue list"

record ReviewReport =
  rootDir :: string
  files :: "ReviewedFile list"
  summary :: ReviewSummary

record ReviewOptions =
  rules :: "QualityRule list option"
  includedCategories :: "RuleCategory list option"
  excludedCategories :: "RuleCategory list option"
  minSeverity :: "Severity option"
  ignorePatterns :: "string list option"

fun CATEGORY_WEIGHTS :: "RuleCategory \<Rightarrow> int" where
  "CATEGORY_WEIGHTS Theater = 25"
| "CATEGORY_WEIGHTS Flaky = 20"
| "CATEGORY_WEIGHTS OverMocking = 15"
| "CATEGORY_WEIGHTS Assertions = 15"
| "CATEGORY_WEIGHTS Isolation = 10"
| "CATEGORY_WEIGHTS Maintainability = 10"
| "CATEGORY_WEIGHTS Structure = 5"

text \<open>\<^verbatim>\<open>Object.keys(CATEGORY_WEIGHTS)\<close>: the categories in the order the object lists them.\<close>

definition categoryKeys :: "RuleCategory list" where
  "categoryKeys =
     [Theater, Flaky, OverMocking, Assertions, Isolation, Maintainability, Structure]"

fun SEVERITY_MULTIPLIERS :: "Severity \<Rightarrow> rat" where
  "SEVERITY_MULTIPLIERS Error = 1"
| "SEVERITY_MULTIPLIERS Warning = dbl (6 / 10)"
| "SEVERITY_MULTIPLIERS Info = dbl (3 / 10)"

subsection \<open>Rule selection\<close>

text \<open>\<^verbatim>\<open>severityOrder.indexOf\<close> for \<^verbatim>\<open>['info', 'warning', 'error']\<close>.\<close>

fun severityIndex :: "Severity \<Rightarrow> nat" where
  "severityIndex Info = 0"
| "severityIndex Warning = 1"
| "severityIndex Error = 2"

definition filterRules :: "ReviewOptions \<Rightarrow> QualityRule list" where
  "filterRules options =
     (let rules0 = (case rules options of Some rs \<Rightarrow> rs | None \<Rightarrow> allRules);
          rules1 = (case includedCategories options of
                      Some cats \<Rightarrow>
                        if length cats > 0 then filter (\<lambda>r. category r \<in> set cats) rules0
                        else rules0
                    | None \<Rightarrow> rules0);
          rules2 = (case excludedCategories options of
                      Some cats \<Rightarrow>
                        if length cats > 0 then filter (\<lambda>r. category r \<notin> set cats) rules1
                        else rules1
                    | None \<Rightarrow> rules1);
          rules3 = (case minSeverity options of
                      Some ms \<Rightarrow>
                        filter (\<lambda>r. severityIndex (severity r) \<ge> severityIndex ms) rules2
                    | None \<Rightarrow> rules2)
      in rules3)"

subsection \<open>Scoring one file\<close>

definition initialCategoryScore :: "QualityRule list \<Rightarrow> RuleCategory \<Rightarrow> CategoryScore" where
  "initialCategoryScore rs cat =
     \<lparr>cs_category = cat,
      cs_description = categoryDescriptions cat,
      cs_score = 100,
      cs_weight = CATEGORY_WEIGHTS cat,
      cs_violations = 0,
      maxDeduction =
        foldl (\<lambda>sum r. dbl (sum + weight r)) 0 (filter (\<lambda>r. category r = cat) rs),
      actualDeduction = 0\<rparr>"

text \<open>
  \<^verbatim>\<open>new Map(rules.map(r => [r.id, r])).get(id)\<close>: of several rules with one id the last
  one is the entry of the map.
\<close>

definition ruleMap_get :: "QualityRule list \<Rightarrow> string \<Rightarrow> QualityRule option" where
  "ruleMap_get rs rid = find (\<lambda>r. rule_id r = rid) (rev rs)"

definition deduct :: "QualityRule \<Rightarrow> CategoryScore \<Rightarrow> CategoryScore" where
  "deduct r c =
     (if cs_category c = category r
      then let deduction = dbl (weight r * SEVERITY_MULTIPLIERS (severity r))
           in c\<lparr>cs_violations := cs_violations c + 1,
                actualDeduction := dbl (actualDeduction c + deduction)\<rparr>
      else c)"

fun applyViolations ::
  "QualityRule list \<Rightarrow> CategoryScore list \<Rightarrow> RuleViolation list \<Rightarrow> CategoryScore list" where
  "applyViolations rs cs [] = cs"
| "applyViolations rs cs (v # vs) =
     applyViolations rs
       (case ruleMap_get rs (ruleId v) of None \<Rightarrow> cs | Some r \<Rightarrow> map (deduct r) cs) vs"

definition normalizedDeduction :: "CategoryScore \<Rightarrow> rat" where
  "normalizedDeduction d =
     (if maxDeduction d > 0 then dbl (dbl (actualDeduction d / maxDeduction d) * 100) else 0)"

definition finalize :: "CategoryScore \<Rightarrow> CategoryScore" where
  "finalize d = d\<lparr>cs_score := max 0 (round (dbl (100 - normalizedDeduction d)))\<rparr>"

definition calculateScore ::
  "RuleViolation list \<Rightarrow> QualityRule list \<Rightarrow> int \<times> CategoryScore list" where
  "calculateScore vs rs =
     (let breakdown =
            map finalize (applyViolations rs (map (initialCategoryScore rs) categoryKeys) vs);
          weightedSum =
            foldl (\<lambda>s c. dbl (s + dbl (of_int (cs_score c) * of_int (cs_weight c)))) 0 breakdown;
          totalWeight = foldl (\<lambda>s c. dbl (s + of_int (cs_weight c))) 0 breakdown;
          overall = (if totalWeight > 0 then round (dbl (weightedSum / totalWeight)) else 100)
      in (overall, breakdown))"

text \<open>The loop over the selected rules; a rule that throws is skipped.\<close>

fun runRules :: "QualityRule list \<Rightarrow> string \<Rightarrow> string \<Rightarrow> RuleViolation list" where
  "runRules [] content filename = []"
| "runRules (r # rs) content filename =
     (case detect r content filename of Inr ruleViolations \<Rightarrow> ruleViolations | Inl e \<Rightarrow> []) @
     runRules rs content filename"

definition countTests :: "string \<Rightarrow> nat" where
  "countTests content = count_matches pat_test_decl content"

definition countAssertions :: "string \<Rightarrow> nat" where
  "countAssertions content =
     foldl (\<lambda>n p. n + count_matches p content) 0 [pat_expect, pat_assert, pat_should]"

definition reviewTestFile :: "string \<Rightarrow> string \<Rightarrow> ReviewOptions \<Rightarrow> ReviewedFile" where
  "reviewTestFile content filename options =
     (let rs = filterRules options;
          vs = runRules rs content filename;
          res = calculateScore vs rs
      in \<lparr>path = filename,
          violations = vs,
          score = fst res,
          scoreBreakdown = snd res,
          testCount = countTests content,
          assertionCount = countAssertions content\<rparr>)"

text \<open>
  The same function with the propagation of exceptions written out: a step that throws
  returns \<open>Inl\<close>, and the thrown value leaves the function unless a \<^verbatim>\<open>catch\<close>
  takes it. \<open>attempt body handler\<close> is \<^verbatim>\<open>try { body } catch (error) { handler }\<close>.
  Only \<^verbatim>\<open>rule.detect\<close> can throw; the handler logs and goes on with the violations
  collected so far. Rule selection, the counts and the scoring are plain computations.
\<close>

definition attempt :: "exn + 'a \<Rightarrow> (exn \<Rightarrow> exn + 'a) \<Rightarrow> exn + 'a" where
  "attempt body handler = (case body of Inr x \<Rightarrow> Inr x | Inl error \<Rightarrow> handler error)"

fun runRules_exn ::
  "QualityRule list \<Rightarrow> string \<Rightarrow> string \<Rightarrow> RuleViolation list \<Rightarrow> exn + RuleViolation list" where
  "runRules_exn [] content filename vs = Inr vs"
| "runRules_exn (r # rs) content filename vs =
     (case attempt
             (case detect r content filename of
                Inl thrown \<Rightarrow> Inl thrown
              | Inr ruleViolations \<Rightarrow> Inr (vs @ ruleViolations))
             (\<lambda>error. Inr vs) of
        Inl thrown \<Rightarrow> Inl thrown
      | Inr vs' \<Rightarrow> runRules_exn rs content filename vs')"

definition reviewTestFile_exn :: "string \<Rightarrow> string \<Rightarrow> ReviewOptions \<Rightarrow> exn + ReviewedFile" where
  "reviewTestFile_exn content filename options =
     (let rs = filterRules options
      in case runRules_exn rs content filename [] of
           Inl thrown \<Rightarrow> Inl thrown
         | Inr vs \<Rightarrow>
             let res = calculateScore vs rs
             in Inr \<lparr>path = filename,
                     violations = vs,
                     score = fst res,
                     scoreBreakdown = snd res,
                     testCount = countTests content,
                     assertionCount = countAssertions content\<rparr>)"

subsection \<open>Aggregation\<close>

text \<open>The violations whose rule id is found in the catalog, as the rules found.\<close>

definition findRule :: "string \<Rightarrow> QualityRule option" where
  "findRule rid = find (\<lambda>r. rule_id r = rid) allRules"

definition knownRules :: "RuleViolation list \<Rightarrow> QualityRule list" where
  "knownRules vs = List.map_filter (\<lambda>v. findRule (ruleId v)) vs"

text \<open>
  \<^verbatim>\<open>violationCounts\<close> is a map in insertion order: a rule id met again has its count
  raised in place, a new one is added at the end.
\<close>

fun bump :: "QualityRule \<Rightarrow> TopIssue list \<Rightarrow> TopIssue list" where
  "bump r [] = [\<lparr>rule = rule_id r, count = 1, issue_severity = severity r\<rparr>]"
| "bump r (e # es) =
     (if rule e = rule_id r then e\<lparr>count := count e + 1\<rparr> # es else e # bump r es)"

definition violationCounts :: "QualityRule list \<Rightarrow> TopIssue list" where
  "violationCounts rs = foldl (\<lambda>m r. bump r m) [] rs"

text \<open>\<^verbatim>\<open>severityOrder.indexOf\<close> for \<^verbatim>\<open>['error', 'warning', 'info']\<close>, and the comparator.\<close>

fun severityRank :: "Severity \<Rightarrow> int" where
  "severityRank Error = 0"
| "severityRank Warning = 1"
| "severityRank Info = 2"

definition compareIssues :: "TopIssue \<Rightarrow> TopIssue \<Rightarrow> int" where
  "compareIssues a b =
     (let severityDiff = severityRank (issue_severity a) - severityRank (issue_severity b)
      in if severityDiff \<noteq> 0 then severityDiff else int (count b) - int (count a))"

text \<open>
  \<^verbatim>\<open>Array.prototype.sort\<close> with a comparator is a stable sort; it is modelled by
  insertion sort, which keeps elements that compare equal in their order.
\<close>

fun insort_cmp :: "('a \<Rightarrow> 'a \<Rightarrow> int) \<Rightarrow> 'a \<Rightarrow> 'a list \<Rightarrow> 'a list" where
  "insort_cmp cmp x [] = [x]"
| "insort_cmp cmp x (y # ys) =
     (if cmp x y \<le> 0 then x # y # ys else y # insort_cmp cmp x ys)"

definition sort_cmp :: "('a \<Rightarrow> 'a \<Rightarrow> int) \<Rightarrow> 'a list \<Rightarrow> 'a list" where
  "sort_cmp cmp xs = foldr (insort_cmp cmp) xs []"

definition categoryScoresOf :: "ReviewedFile list \<Rightarrow> RuleCategory \<Rightarrow> int list" where
  "categoryScoresOf fs cat =
     concat (map (\<lambda>f. map cs_score (filter (\<lambda>c. cs_category c = cat) (scoreBreakdown f))) fs)"

definition aggregateCategory ::
  "ReviewedFile list \<Rightarrow> (RuleCategory \<Rightarrow> nat) \<Rightarrow> RuleCategory \<Rightarrow> CategoryScore" where
  "aggregateCategory fs byCategory cat =
     (let scores = categoryScoresOf fs cat;
          avgScore =
            (if scores = [] then 100
             else round (dbl (foldl (\<lambda>total x. dbl (total + of_int x)) 0 scores /
                              of_nat (length scores))))
      in \<lparr>cs_category = cat,
          cs_description = categoryDescriptions cat,
          cs_score = avgScore,
          cs_weight = CATEGORY_WEIGHTS cat,
          cs_violations = byCategory cat,
          maxDeduction = 0,
          actualDeduction = 0\<rparr>)"

definition generateSummary :: "ReviewedFile list \<Rightarrow> ReviewSummary" where
  "generateSummary fs =
     (let allViolations = concat (map violations fs);
          known = knownRules allViolations;
          byCategory = (\<lambda>cat. length (filter (\<lambda>r. category r = cat) known));
          bySeverity = (\<lambda>sev. length (filter (\<lambda>r. severity r = sev) known))
      in \<lparr>totalFiles = length fs,
          totalTests = foldl (\<lambda>sum f. sum + testCount f) 0 fs,
          totalAssertions = foldl (\<lambda>sum f. sum + assertionCount f) 0 fs,
          totalViolations = length allViolations,
          overallScore =
            (if length fs > 0
             then round (dbl (foldl (\<lambda>sum f. dbl (sum + of_int (score f))) 0 fs /
                              of_nat (length fs)))
             else 100),
          summaryBreakdown = map (aggregateCategory fs byCategory) categoryKeys,
          violationsByCategory = byCategory,
          violationsBySeverity = bySeverity,
          topIssues = take 10 (sort_cmp compareIssues (violationCounts known))\<rparr>)"

definition createEmptySummary :: ReviewSummary where
  "createEmptySummary =
     \<lparr>totalFiles = 0, totalTests = 0, totalAssertions = 0, totalViolations = 0,
      overallScore = 0, summaryBreakdown = [],
      violationsByCategory = (\<lambda>cat. 0), violationsBySeverity = (\<lambda>sev. 0), topIssues = []\<rparr>"

text \<open>
  \<^verbatim>\<open>reviewTestFiles\<close>. The file system is an argument: \<open>testFiles\<close> is what the glob
  finds, each path with the text \<^verbatim>\<open>readFile\<close> returns, or \<open>None\<close> when reading it
  fails; a file that cannot be read is skipped.
\<close>

definition reviewTestFiles ::
  "string \<Rightarrow> (string \<times> string option) list \<Rightarrow> ReviewOptions \<Rightarrow> ReviewReport" where
  "reviewTestFiles dir testFiles options =
     (if length testFiles = 0
      then \<lparr>rootDir = dir, files = [], summary = createEmptySummary\<rparr>
      else
        let reviewedFiles =
              List.map_filter
                (\<lambda>(filepath, r). case r of
                                    None \<Rightarrow> None
                                  | Some content \<Rightarrow> Some (reviewTestFile content filepath options))
                testFiles
        in \<lparr>rootDir = dir, files = reviewedFiles, summary = generateSummary reviewedFiles\<rparr>)"

subsection \<open>The order of the top issues in the words of the specification\<close>

text \<open>
  An error comes before a warning and a warning before an info; within one severity the
  larger count comes first. This is written from the specification, not from the
  comparator of the source.
\<close>

fun comesBefore :: "Severity \<Rightarrow> Severity \<Rightarrow> bool" where
  "comesBefore Error Warning = True"
| "comesBefore Error Info = True"
| "comesBefore Warning Info = True"
| "comesBefore a b = False"

definition spec_order :: "TopIssue \<Rightarrow> TopIssue \<Rightarrow> bool" where
  "spec_order a b =
     (comesBefore (issue_severity a) (issue_severity b)
      \<or> (issue_severity a = issue_severity b \<and> count b \<le> count a))"

subsection \<open>Inputs of the scenarios\<close>

text \<open>No option is given: the full default catalog is selected.\<close>

definition defaultOptions :: ReviewOptions where
  "defaultOptions =
     \<lparr>rules = None, includedCategories = None, excludedCategories = None,
      minSeverity = None, ignorePatterns = None\<rparr>"

text \<open>Scenario A: the text \<^verbatim>\<open>it('should work', () => {})\<close>.\<close>

definition scenarioA :: string where
  "scenarioA = ''it('' @ [sq] @ ''should work'' @ [sq] @ '', () => {})''"

text \<open>Scenario E: six mock registrations and one assertion.\<close>

definition scenarioE :: string where
  "scenarioE =
     ''jest.mock(a); jest.mock(b); vi.mock(c); jest.spyOn(o, m); vi.fn(); '' @
     ''f.mockImplementation(g); expect(x).toBe(y);''"

text \<open>A selection that leaves no rule: one category both included and excluded.\<close>

definition noRuleOptions :: ReviewOptions where
  "noRuleOptions =
     defaultOptions\<lparr>includedCategories := Some [Flaky], excludedCategories := Some [Flaky]\<rparr>"

text \<open>A rule whose \<^verbatim>\<open>detect\<close> throws on every input, between two rules of the catalog.\<close>

definition throwingRule :: QualityRule where
  "throwingRule =
     \<lparr>rule_id = ''custom/throws'', name = ''Throws'', description = ''Always throws'',
      category = Structure, severity = Error, weight = 5,
      detect = (\<lambda>content filename. Inl (Thrown ''boom''))\<rparr>"

definition throwingOptions :: ReviewOptions where
  "throwingOptions = defaultOptions\<lparr>rules := Some (theaterRules @ throwingRule # structureRules)\<rparr>"

text \<open>
  A custom catalog of two structure rules: one of weight 10 that never reports, and one
  of negative weight that reports one violation on every text.
\<close>

definition quietRule :: QualityRule where
  "quietRule =
     \<lparr>rule_id = ''custom/quiet'', name = ''Quiet'', description = ''Never reports'',
      category = Structure, severity = Error, weight = 10,
      detect = (\<lambda>content filename. Inr [])\<rparr>"

definition negativeRule :: QualityRule where
  "negativeRule =
     \<lparr>rule_id = ''custom/negative'', name = ''Negative'', description = ''Negative weight'',
      category = Structure, severity = Error, weight = - 5,
      detect = (\<lambda>content filename. Inr [violation ''custom/negative'' 1])\<rparr>"

definition negativeOptions :: ReviewOptions where
  "negativeOptions = defaultOptions\<lparr>rules := Some [quietRule, negativeRule]\<rparr>"

text \<open>A custom catalog of one rule that reports one violation on every text.\<close>

definition alwaysRule :: QualityRule where
  "alwaysRule =
     \<lparr>rule_id = ''custom/always'', name = ''Always'', description = ''Always reports'',
      category = Structure, severity = Warning, weight = 5,
      detect = (\<lambda>content filename. Inr [violation ''custom/always'' 1])\<rparr>"

definition customOptions :: ReviewOptions where
  "customOptions = defaultOptions\<lparr>rules := Some [alwaysRule]\<rparr>"

text \<open>
  Two reviewed files with violations of twelve rules of the catalog, the less severe
  ones first.
\<close>

definition busyFiles :: "ReviewedFile list" where
  "busyFiles =
     [\<lparr>path = ''one.test.ts'',
       violations =
         [violation ''structure/missing-describe'' 1,
          violation ''maintain/poor-test-name'' 3,
          violation ''maintain/poor-test-name'' 7,
          violation ''maintain/magic-numbers'' 4,
          violation ''assertion/weak-assertion'' 5,
          violation ''theater/console-only'' 6,
          violation ''mock/excessive-mocking'' 1,
          violation ''flaky/random-data'' 8,
          violation ''flaky/random-data'' 9,
          violation ''flaky/random-data'' 12,
          violation ''theater/empty-test'' 10,
          violation ''flaky/timing-dependency'' 11],
       score = 80, scoreBreakdown = [], testCount = 6, assertionCount = 4\<rparr>,
      \<lparr>path = ''two.test.ts'',
       violations =
         [violation ''isolation/global-state'' 2,
          violation ''isolation/global-state'' 3,
          violation ''theater/always-true'' 4,
          violation ''theater/empty-test'' 5,
          violation ''theater/empty-test'' 6,
          violation ''mock/mock-return-ignores-input'' 1,
          violation ''maintain/commented-test'' 9,
          violation ''assertion/weak-assertion'' 10],
       score = 75, scoreBreakdown = [], testCount = 5, assertionCount = 5\<rparr>]"

section \<open>Properties\<close>

subsection \<open>Rule selection\<close>

text \<open>
  Claim C9. An empty \<^verbatim>\<open>includedCategories\<close> or \<^verbatim>\<open>excludedCategories\<close> list is treated
  as if the option were absent: the selection, and with it the whole review of a file, is
  the same as without the option. In particular an empty inclusion list does not restrict
  the selection to no rule.
\<close>

theorem empty_category_list_is_absent:
  "filterRules (opts\<lparr>includedCategories := Some []\<rparr>) =
     filterRules (opts\<lparr>includedCategories := None\<rparr>)
   \<and> filterRules (opts\<lparr>excludedCategories := Some []\<rparr>) =
       filterRules (opts\<lparr>excludedCategories := None\<rparr>)
   \<and> reviewTestFile content filename (opts\<lparr>includedCategories := Some []\<rparr>) =
       reviewTestFile content filename (opts\<lparr>includedCategories := None\<rparr>)
   \<and> reviewTestFile content filename (opts\<lparr>excludedCategories := Some []\<rparr>) =
       reviewTestFile content filename (opts\<lparr>excludedCategories := None\<rparr>)"
  by (simp add: filterRules_def reviewTestFile_def)

lemma runRules_filter_le:
  "length (runRules (filter P rs) content filename) \<le> length (runRules rs content filename)"
  by (induction rs) auto

text \<open>
  Claim C5. For a fixed text, file name and catalog (and whatever the other options are),
  raising \<^verbatim>\<open>minSeverity\<close> from \<^verbatim>\<open>info\<close> to \<^verbatim>\<open>warning\<close> never increases the number of
  violations of the reviewed file.
\<close>

theorem raising_minSeverity_never_adds_violations:
  "length (violations (reviewTestFile content filename (opts\<lparr>minSeverity := Some Warning\<rparr>)))
   \<le> length (violations (reviewTestFile content filename (opts\<lparr>minSeverity := Some Info\<rparr>)))"
  by (simp add: reviewTestFile_def filterRules_def Let_def runRules_filter_le)

subsection \<open>Aggregation\<close>

text \<open>
  Claim C10. In the summary of any list of reviewed files, each of the seven aggregate
  category records has \<^verbatim>\<open>maxDeduction = 0\<close> and \<^verbatim>\<open>actualDeduction = 0\<close>.
\<close>

theorem aggregate_deductions_are_zero:
  "map maxDeduction (summaryBreakdown (generateSummary fs)) = replicate 7 0
   \<and> map actualDeduction (summaryBreakdown (generateSummary fs)) = replicate 7 0
   \<and> map cs_category (summaryBreakdown (generateSummary fs)) = categoryKeys"
  by (simp add: generateSummary_def aggregateCategory_def categoryKeys_def Let_def numeral_eq_Suc)

text \<open>
  Claim C2 (zero files reviewed give an overall score of 0). The run over a directory
  with no test file returns the empty summary, with score 0; but when test files are
  found and none can be read, the list of reviewed files is empty as well and
  \<^verbatim>\<open>generateSummary\<close> is applied to it, which gives 100.
\<close>

theorem unreadable_files_score_100:
  "files (reviewTestFiles d [(p, None)] opts) = []
   \<and> overallScore (summary (reviewTestFiles d [(p, None)] opts)) = 100
   \<and> overallScore (generateSummary []) = 100
   \<and> overallScore (summary (reviewTestFiles d [] opts)) = 0"
  by (simp add: reviewTestFiles_def generateSummary_def createEmptySummary_def Let_def
      List.map_filter_simps)

subsection \<open>Rounding to doubles\<close>

lemma roundEven_bounds: "\<lfloor>n\<rfloor> \<le> roundEven n \<and> roundEven n \<le> \<lceil>n\<rceil>"
proof -
  have "\<lfloor>n\<rfloor> \<le> \<lceil>n\<rceil>" by (simp add: floor_le_ceiling)
  moreover have "\<lceil>n\<rceil> = \<lfloor>n\<rfloor> + 1" if "0 < n - of_int \<lfloor>n\<rfloor>"
    using that by (simp add: ceiling_altdef)
  ultimately show ?thesis
    by (auto simp: roundEven_def Let_def)
qed

lemma roundEven_le: "n \<le> of_int N \<Longrightarrow> roundEven n \<le> N"
  using roundEven_bounds [of n] by (meson ceiling_le order_trans)

lemma roundEven_ge: "of_int N \<le> n \<Longrightarrow> N \<le> roundEven n"
  using roundEven_bounds [of n] by (meson le_floor_iff order_trans)

lemma exponent_le:
  assumes "0 < x"
  shows "2 powi (exponent x) \<le> x"
proof -
  define p where "p = fst (quotient_of x)"
  define q where "q = snd (quotient_of x)"
  have pq: "quotient_of x = (p, q)" by (simp add: p_def q_def)
  have q0: "0 < q" using quotient_of_denom_pos [OF pq] .
  have x: "x = of_int p / of_int q" using quotient_of_div [OF pq] .
  have p0: "0 < p" using assms q0 unfolding x by (simp add: zero_less_divide_iff)
  define d where "d = bitlen p - bitlen q"
  have lo: "(2::rat) ^ nat (bitlen p - 1) \<le> of_int p"
  proof -
    have "2 ^ nat (bitlen p - 1) \<le> p" using bitlen_bounds [OF p0] by simp
    then have "(of_int (2 ^ nat (bitlen p - 1)) :: rat) \<le> of_int p" by (simp only: of_int_le_iff)
    then show ?thesis by simp
  qed
  have hi: "(of_int q :: rat) < 2 ^ nat (bitlen q)"
  proof -
    have "q < 2 ^ nat (bitlen q)" using bitlen_bounds [OF q0] by simp
    then have "(of_int q :: rat) < of_int (2 ^ nat (bitlen q))" by (simp only: of_int_less_iff)
    then show ?thesis by simp
  qed
  have bp: "1 \<le> bitlen p" using p0 by (simp add: bitlen_alt_def)
  have bq: "0 \<le> bitlen q" by (rule bitlen_nonneg)
  have "(2::rat) powi (d - 1) = 2 powi (bitlen p - 1) / 2 powi (bitlen q)"
    unfolding d_def using power_int_diff [of "2::rat" "bitlen p - 1" "bitlen q"]
    by (simp add: algebra_simps)
  also have "\<dots> = 2 ^ nat (bitlen p - 1) / 2 ^ nat (bitlen q)"
    using bp bq by (simp add: power_int_def)
  also have "\<dots> \<le> of_int p / 2 ^ nat (bitlen q)"
    using lo by (simp add: divide_right_mono)
  also have "\<dots> \<le> of_int p / of_int q"
    using hi p0 q0 by (simp add: frac_le)
  finally have low: "(2::rat) powi (d - 1) \<le> x" unfolding x .
  have ax: "\<bar>x\<bar> = x" using assms by simp
  show ?thesis
    using low by (auto simp: exponent_def Let_def ax d_def p_def q_def)
qed

lemma dbl_nonneg: "0 \<le> x \<Longrightarrow> 0 \<le> dbl x"
proof -
  assume x: "0 \<le> x"
  have "0 \<le> roundEven (x / 2 powi k)" for k
  proof (rule roundEven_ge)
    show "of_int 0 \<le> x / 2 powi k" using x by simp
  qed
  then show ?thesis by (simp add: dbl_def Let_def)
qed

lemma dbl_nonpos: "x \<le> 0 \<Longrightarrow> dbl x \<le> 0"
proof -
  assume x: "x \<le> 0"
  have "roundEven (x / 2 powi k) \<le> 0" for k
  proof (rule roundEven_le)
    show "x / 2 powi k \<le> of_int 0" using x by (simp add: divide_nonpos_pos)
  qed
  then show ?thesis by (simp add: dbl_def Let_def mult_nonpos_nonneg)
qed

text \<open>Below \<open>2 ^ 53\<close> the spacing of the doubles is a negative power of two.\<close>

lemma spacing_below_2_53:
  assumes "0 < x" and "x < 2 ^ 53"
  shows "\<exists>m. (2::rat) powi (max (exponent x) (- 1022) - 52) = 1 / 2 ^ m"
proof -
  define e where "e = exponent x"
  have "(2::rat) powi e \<le> x" unfolding e_def using assms(1) by (rule exponent_le)
  then have "(2::rat) powi e < 2 powi 53" using assms(2) by simp
  moreover have "(2::rat) powi 53 \<le> 2 powi e" if "53 \<le> e"
    using that by (intro power_int_increasing) simp_all
  ultimately have e53: "e < 53" by force
  define m where "m = nat (52 - max e (- 1022))"
  have k: "max e (- 1022) - 52 = - int m" using e53 by (simp add: m_def)
  have "(2::rat) powi (max e (- 1022) - 52) = 1 / 2 ^ m"
    unfolding k by (simp add: power_int_minus divide_inverse)
  then show ?thesis unfolding e_def by blast
qed

lemma dbl_le_of_int:
  assumes "x \<le> of_int B" and "0 \<le> B" and "B < 2 ^ 53"
  shows "dbl x \<le> of_int B"
proof (cases "x \<le> 0")
  case True
  then have "dbl x \<le> 0" by (rule dbl_nonpos)
  then show ?thesis using assms(2) by (simp add: order_trans)
next
  case False
  then have x0: "0 < x" by simp
  have "(of_int B :: rat) < of_int (2 ^ 53)" using assms(3) by (simp only: of_int_less_iff)
  then have "x < 2 ^ 53" using assms(1) by simp
  with x0 obtain m where q: "(2::rat) powi (max (exponent x) (- 1022) - 52) = 1 / 2 ^ m"
    using spacing_below_2_53 by blast
  have "x / (1 / 2 ^ m) \<le> of_int (B * 2 ^ m)"
    using assms(1) by (simp add: mult_right_mono)
  then have "roundEven (x / (1 / 2 ^ m)) \<le> B * 2 ^ m" by (rule roundEven_le)
  then have "(of_int (roundEven (x / (1 / 2 ^ m))) :: rat) \<le> of_int (B * 2 ^ m)"
    by (simp only: of_int_le_iff)
  then have "(of_int (roundEven (x / (1 / 2 ^ m))) :: rat) * (1 / 2 ^ m)
               \<le> of_int (B * 2 ^ m) * (1 / 2 ^ m)"
    by (rule mult_right_mono) simp
  then have "(of_int (roundEven (x / (1 / 2 ^ m))) :: rat) * (1 / 2 ^ m) \<le> of_int B" by simp
  then show ?thesis using x0 by (simp add: dbl_def Let_def q)
qed

lemma dbl_of_nonneg_int:
  assumes "0 \<le> n" and "n < 2 ^ 53"
  shows "dbl (of_int n) = of_int n"
proof (cases "n = 0")
  case True
  then show ?thesis by (simp add: dbl_def)
next
  case False
  then have x0: "0 < (of_int n :: rat)" using assms(1) by simp
  have "(of_int n :: rat) < of_int (2 ^ 53)" using assms(2) by (simp only: of_int_less_iff)
  then have "(of_int n :: rat) < 2 ^ 53" by simp
  with x0 obtain m where q: "(2::rat) powi (max (exponent (of_int n)) (- 1022) - 52) = 1 / 2 ^ m"
    using spacing_below_2_53 by blast
  have "(of_int n :: rat) / (1 / 2 ^ m) = of_int (n * 2 ^ m)" by simp
  moreover have "roundEven (of_int (n * 2 ^ m)) = n * 2 ^ m"
    by (simp only: roundEven_def Let_def floor_of_int) simp
  ultimately have "roundEven (of_int n / (1 / 2 ^ m)) = n * 2 ^ m" by (simp only:)
  then show ?thesis using x0 by (simp add: dbl_def Let_def q)
qed

lemma dbl_le_100: "x \<le> 100 \<Longrightarrow> dbl x \<le> 100"
  using dbl_le_of_int [of x 100] by simp

lemma round_in_0_100:
  fixes q :: rat
  assumes "0 \<le> q" and "q \<le> 100"
  shows "0 \<le> round q \<and> round q \<le> 100"
proof -
  have "round (0::rat) \<le> round q" using assms(1) by (rule round_mono)
  moreover have "round q \<le> round (100::rat)" using assms(2) by (rule round_mono)
  ultimately show ?thesis by simp
qed

lemma round_dbl_in_0_100:
  assumes "0 \<le> q" and "q \<le> 100"
  shows "0 \<le> round (dbl q) \<and> round (dbl q) \<le> 100"
  using assms by (intro round_in_0_100 dbl_nonneg dbl_le_100)

lemma int_sum_exact:
  fixes xs :: "int list"
  assumes "\<forall>x\<in>set xs. 0 \<le> x" and "0 \<le> A" and "A + sum_list xs < 2 ^ 53"
  shows "foldl (\<lambda>t x. dbl (t + of_int x)) (of_int A) xs = of_int (A + sum_list xs)"
  using assms
proof (induction xs arbitrary: A)
  case Nil
  then show ?case by simp
next
  case (Cons x xs)
  have x0: "0 \<le> x" and r0: "0 \<le> sum_list xs"
    using Cons.prems(1) by (simp_all add: sum_list_nonneg)
  have "dbl (of_int A + of_int x) = dbl (of_int (A + x))" by simp
  also have "\<dots> = of_int (A + x)"
    using Cons.prems x0 r0 by (intro dbl_of_nonneg_int) simp_all
  finally have step: "dbl (of_int A + of_int x) = of_int (A + x)" .
  have "foldl (\<lambda>t x. dbl (t + of_int x)) (of_int (A + x)) xs = of_int (A + x + sum_list xs)"
    using Cons.prems x0 by (intro Cons.IH) simp_all
  then show ?case by (simp add: step add.assoc)
qed

lemma mean_in_0_100:
  fixes xs :: "int list"
  assumes "xs \<noteq> []" and "\<forall>x\<in>set xs. 0 \<le> x \<and> x \<le> 100" and "length xs < 2 ^ 40"
  shows "0 \<le> round (dbl (foldl (\<lambda>t x. dbl (t + of_int x)) 0 xs / of_nat (length xs)))
         \<and> round (dbl (foldl (\<lambda>t x. dbl (t + of_int x)) 0 xs / of_nat (length xs))) \<le> 100"
proof -
  have lo: "0 \<le> sum_list xs" using assms(2) by (simp add: sum_list_nonneg)
  have hi: "sum_list xs \<le> 100 * int (length xs)"
    using assms(2) by (induction xs) auto
  have "int (length xs) < 2 ^ 40" using assms(3) by (metis of_nat_less_iff of_nat_numeral of_nat_power)
  then have "100 * int (length xs) < 2 ^ 53" by simp
  then have small: "0 + sum_list xs < 2 ^ 53" using hi by simp
  have "foldl (\<lambda>t x. dbl (t + of_int x)) (of_int 0) xs = of_int (0 + sum_list xs)"
    using assms(2) small by (intro int_sum_exact) simp_all
  then have tot: "foldl (\<lambda>t x. dbl (t + of_int x)) 0 xs = of_int (sum_list xs)" by simp
  have n: "0 < (of_nat (length xs) :: rat)" using assms(1) by simp
  have "(of_int (sum_list xs) :: rat) \<le> of_int (100 * int (length xs))"
    using hi by (simp only: of_int_le_iff)
  then have "(of_int (sum_list xs) :: rat) \<le> 100 * of_nat (length xs)" by simp
  then have "(of_int (sum_list xs) :: rat) / of_nat (length xs) \<le> 100"
    using n by (simp add: pos_divide_le_eq)
  moreover have "0 \<le> (of_int (sum_list xs) :: rat) / of_nat (length xs)"
    using lo by simp
  ultimately show ?thesis unfolding tot by (intro round_dbl_in_0_100)
qed

subsection \<open>Score bounds\<close>

lemma find_Some_member: "find P xs = Some x \<Longrightarrow> x \<in> set xs"
  by (induction xs) (auto split: if_splits)

lemma ruleMap_get_member: "ruleMap_get rs rid = Some r \<Longrightarrow> r \<in> set rs"
  using find_Some_member [of _ "rev rs" r] by (simp add: ruleMap_get_def)

lemma SEVERITY_MULTIPLIERS_nonneg: "0 \<le> SEVERITY_MULTIPLIERS s"
  by (cases s) (simp_all add: dbl_nonneg)

lemma CATEGORY_WEIGHTS_bounds: "0 \<le> CATEGORY_WEIGHTS c \<and> CATEGORY_WEIGHTS c \<le> 25"
  by (cases c) simp_all

lemma deduct_keeps:
  "cs_weight (deduct r c) = cs_weight c" "cs_category (deduct r c) = cs_category c"
  by (simp_all add: deduct_def Let_def)

lemma deduct_nonneg:
  "0 \<le> weight r \<Longrightarrow> 0 \<le> actualDeduction c \<Longrightarrow> 0 \<le> actualDeduction (deduct r c)"
  by (simp add: deduct_def Let_def SEVERITY_MULTIPLIERS_nonneg dbl_nonneg)

lemma applyViolations_keeps:
  "map cs_weight (applyViolations rs cs vs) = map cs_weight cs"
  "map cs_category (applyViolations rs cs vs) = map cs_category cs"
  by (induction rs cs vs rule: applyViolations.induct)
     (auto simp: deduct_keeps split: option.splits)

lemma applyViolations_nonneg:
  assumes "\<forall>r\<in>set rs. 0 \<le> weight r" and "\<forall>c\<in>set cs. 0 \<le> actualDeduction c"
  shows "\<forall>c\<in>set (applyViolations rs cs vs). 0 \<le> actualDeduction c"
  using assms
proof (induction rs cs vs rule: applyViolations.induct)
  case (1 rs cs)
  then show ?case by simp
next
  case (2 rs cs v vs)
  show ?case
  proof (cases "ruleMap_get rs (ruleId v)")
    case None
    with 2 show ?thesis by simp
  next
    case (Some r)
    then have "0 \<le> weight r" using "2.prems"(1) ruleMap_get_member by blast
    then have "\<forall>c\<in>set (map (deduct r) cs). 0 \<le> actualDeduction c"
      using "2.prems"(2) by (simp add: deduct_nonneg)
    with 2 Some show ?thesis by simp
  qed
qed

lemma finalize_bounds:
  assumes "0 \<le> actualDeduction d"
  shows "0 \<le> cs_score (finalize d) \<and> cs_score (finalize d) \<le> 100"
proof -
  have "0 \<le> normalizedDeduction d"
    using assms by (simp add: normalizedDeduction_def dbl_nonneg)
  then have "100 - normalizedDeduction d \<le> 100" by simp
  then have "dbl (100 - normalizedDeduction d) \<le> 100" by (rule dbl_le_100)
  then have "round (dbl (100 - normalizedDeduction d)) \<le> round (100::rat)" by (rule round_mono)
  then show ?thesis by (simp add: finalize_def)
qed

lemma finalize_keeps:
  "cs_weight (finalize d) = cs_weight d" "cs_category (finalize d) = cs_category d"
  by (simp_all add: finalize_def)

lemma weightedSum_bounds:
  assumes "\<forall>c\<in>set bd. 0 \<le> cs_score c \<and> cs_score c \<le> 100 \<and> 0 \<le> cs_weight c"
    and "0 \<le> acc" and "acc \<le> of_int A" and "0 \<le> A"
    and "A + 100 * sum_list (map cs_weight bd) < 2 ^ 53"
  shows "0 \<le> foldl (\<lambda>s c. dbl (s + dbl (of_int (cs_score c) * of_int (cs_weight c)))) acc bd
         \<and> foldl (\<lambda>s c. dbl (s + dbl (of_int (cs_score c) * of_int (cs_weight c)))) acc bd
             \<le> of_int (A + 100 * sum_list (map cs_weight bd))"
  using assms
proof (induction bd arbitrary: acc A)
  case Nil
  then show ?case by simp
next
  case (Cons c bd)
  have c: "0 \<le> cs_score c" "cs_score c \<le> 100" "0 \<le> cs_weight c"
    using Cons.prems(1) by simp_all
  have rest: "0 \<le> sum_list (map cs_weight bd)"
    using Cons.prems(1) by (auto intro!: sum_list_nonneg)
  have w: "100 * cs_weight c < 2 ^ 53" "A + 100 * cs_weight c < 2 ^ 53"
    using Cons.prems(4,5) rest c by simp_all
  define p where "p = dbl (of_int (cs_score c) * of_int (cs_weight c))"
  have "cs_score c * cs_weight c \<le> 100 * cs_weight c"
    using c by (simp add: mult_right_mono)
  then have "(of_int (cs_score c * cs_weight c) :: rat) \<le> of_int (100 * cs_weight c)"
    by (simp only: of_int_le_iff)
  then have "(of_int (cs_score c) * of_int (cs_weight c) :: rat) \<le> of_int (100 * cs_weight c)"
    by simp
  then have p_hi: "p \<le> of_int (100 * cs_weight c)"
    unfolding p_def using c w by (intro dbl_le_of_int) simp_all
  have p_lo: "0 \<le> p" unfolding p_def using c by (intro dbl_nonneg) simp
  have "acc + p \<le> of_int (A + 100 * cs_weight c)"
    using Cons.prems(3) p_hi by simp
  then have hi: "dbl (acc + p) \<le> of_int (A + 100 * cs_weight c)"
    using Cons.prems(4) c w by (intro dbl_le_of_int) simp_all
  have lo: "0 \<le> dbl (acc + p)" using Cons.prems(2) p_lo by (intro dbl_nonneg) simp
  have "0 \<le> foldl (\<lambda>s c. dbl (s + dbl (of_int (cs_score c) * of_int (cs_weight c)))) (dbl (acc + p)) bd
         \<and> foldl (\<lambda>s c. dbl (s + dbl (of_int (cs_score c) * of_int (cs_weight c)))) (dbl (acc + p)) bd
             \<le> of_int (A + 100 * cs_weight c + 100 * sum_list (map cs_weight bd))"
    using Cons.prems lo hi c by (intro Cons.IH) (simp_all add: algebra_simps)
  then show ?case by (simp add: p_def algebra_simps)
qed

lemma totalWeight_exact:
  assumes "\<forall>c\<in>set bd. 0 \<le> cs_weight c" and "sum_list (map cs_weight bd) < 2 ^ 53"
  shows "foldl (\<lambda>s c. dbl (s + of_int (cs_weight c))) 0 bd = of_int (sum_list (map cs_weight bd))"
proof -
  have "foldl (\<lambda>t x. dbl (t + of_int x)) (of_int 0) (map cs_weight bd)
          = of_int (0 + sum_list (map cs_weight bd))"
    using assms by (intro int_sum_exact) auto
  then show ?thesis by (simp add: foldl_map)
qed

lemma calculateScore_bounds:
  assumes "\<forall>r\<in>set rs. 0 \<le> weight r"
  shows "0 \<le> fst (calculateScore vs rs) \<and> fst (calculateScore vs rs) \<le> 100
         \<and> (\<forall>c\<in>set (snd (calculateScore vs rs)). 0 \<le> cs_score c \<and> cs_score c \<le> 100)
         \<and> map cs_category (snd (calculateScore vs rs)) = categoryKeys"
proof -
  define cs where "cs = applyViolations rs (map (initialCategoryScore rs) categoryKeys) vs"
  define bd where "bd = map finalize cs"
  have nn: "\<forall>c\<in>set cs. 0 \<le> actualDeduction c"
    unfolding cs_def using assms
    by (rule applyViolations_nonneg) (simp add: initialCategoryScore_def)
  have sc: "\<forall>c\<in>set bd. 0 \<le> cs_score c \<and> cs_score c \<le> 100"
    unfolding bd_def using nn by (auto dest: finalize_bounds)
  have "map cs_weight bd = map cs_weight cs"
    unfolding bd_def by (simp add: finalize_keeps)
  also have "\<dots> = map CATEGORY_WEIGHTS categoryKeys"
    unfolding cs_def by (simp add: applyViolations_keeps initialCategoryScore_def comp_def)
  finally have w: "map cs_weight bd = [25, 20, 15, 15, 10, 10, 5]"
    by (simp add: categoryKeys_def)
  have wn: "\<forall>c\<in>set bd. 0 \<le> cs_weight c"
  proof
    fix c assume "c \<in> set bd"
    then have "cs_weight c \<in> set (map cs_weight bd)" by simp
    then show "0 \<le> cs_weight c" unfolding w by auto
  qed
  have cat: "map cs_category bd = categoryKeys"
    unfolding bd_def cs_def
    by (simp add: finalize_keeps applyViolations_keeps initialCategoryScore_def comp_def)
  define ws where
    "ws = foldl (\<lambda>s c. dbl (s + dbl (of_int (cs_score c) * of_int (cs_weight c)))) 0 bd"
  have tw: "foldl (\<lambda>s c. dbl (s + of_int (cs_weight c))) 0 bd = 100"
    using totalWeight_exact [of bd] wn by (simp add: w)
  have "0 \<le> ws \<and> ws \<le> of_int (0 + 100 * sum_list (map cs_weight bd))"
    unfolding ws_def using sc wn by (intro weightedSum_bounds) (auto simp: w)
  then have wsb: "0 \<le> ws" "ws \<le> 10000" by (simp_all add: w)
  have ov: "fst (calculateScore vs rs) = round (dbl (ws / 100))"
    by (simp add: calculateScore_def Let_def bd_def [symmetric] cs_def [symmetric]
        ws_def [symmetric] tw)
  have "0 \<le> round (dbl (ws / 100)) \<and> round (dbl (ws / 100)) \<le> 100"
    using wsb by (intro round_dbl_in_0_100) simp_all
  then have "0 \<le> fst (calculateScore vs rs) \<and> fst (calculateScore vs rs) \<le> 100"
    by (simp only: ov)
  moreover have "snd (calculateScore vs rs) = bd"
    by (simp add: calculateScore_def Let_def bd_def cs_def)
  ultimately show ?thesis using sc cat by simp
qed

lemma filter_rules_subset:
  "set (filterRules opts) \<subseteq> set (case rules opts of Some rs \<Rightarrow> rs | None \<Rightarrow> allRules)"
  by (auto simp: filterRules_def Let_def split: option.splits if_splits)

lemma reviewTestFile_bounds:
  assumes "\<forall>r\<in>set (filterRules opts). 0 \<le> weight r"
  shows "0 \<le> score (reviewTestFile content filename opts)
         \<and> score (reviewTestFile content filename opts) \<le> 100
         \<and> (\<forall>c\<in>set (scoreBreakdown (reviewTestFile content filename opts)).
               0 \<le> cs_score c \<and> cs_score c \<le> 100)
         \<and> map cs_category (scoreBreakdown (reviewTestFile content filename opts)) = categoryKeys"
  using calculateScore_bounds [OF assms] by (simp add: reviewTestFile_def Let_def)

lemma categoryScoresOf_length:
  assumes "\<forall>f\<in>set fs. length (scoreBreakdown f) = 7"
  shows "length (categoryScoresOf fs cat) \<le> 7 * length fs"
  using assms
proof (induction fs)
  case Nil
  then show ?case by (simp add: categoryScoresOf_def)
next
  case (Cons f fs)
  have "length (filter (\<lambda>c. cs_category c = cat) (scoreBreakdown f)) \<le> 7"
    using Cons.prems length_filter_le [of "\<lambda>c. cs_category c = cat" "scoreBreakdown f"] by simp
  moreover have "length (categoryScoresOf fs cat) \<le> 7 * length fs"
    using Cons by simp
  ultimately show ?case by (simp add: categoryScoresOf_def)
qed

lemma generateSummary_bounds:
  assumes "\<forall>f\<in>set fs. 0 \<le> score f \<and> score f \<le> 100
             \<and> (\<forall>c\<in>set (scoreBreakdown f). 0 \<le> cs_score c \<and> cs_score c \<le> 100)
             \<and> length (scoreBreakdown f) = 7"
    and "length fs < 2 ^ 32"
  shows "0 \<le> overallScore (generateSummary fs) \<and> overallScore (generateSummary fs) \<le> 100
         \<and> (\<forall>c\<in>set (summaryBreakdown (generateSummary fs)). 0 \<le> cs_score c \<and> cs_score c \<le> 100)"
proof -
  have ov: "0 \<le> overallScore (generateSummary fs) \<and> overallScore (generateSummary fs) \<le> 100"
  proof (cases "fs = []")
    case True
    then show ?thesis by (simp add: generateSummary_def Let_def)
  next
    case False
    have "map score fs \<noteq> []" using False by simp
    moreover have "\<forall>x\<in>set (map score fs). 0 \<le> x \<and> x \<le> 100" using assms(1) by auto
    moreover have "length (map score fs) < 2 ^ 40" using assms(2) by simp
    ultimately have
      "0 \<le> round (dbl (foldl (\<lambda>t x. dbl (t + of_int x)) 0 (map score fs) /
                          of_nat (length (map score fs))))
       \<and> round (dbl (foldl (\<lambda>t x. dbl (t + of_int x)) 0 (map score fs) /
                          of_nat (length (map score fs)))) \<le> 100"
      by (rule mean_in_0_100)
    with False show ?thesis
      by (simp add: generateSummary_def Let_def foldl_map)
  qed
  have cat: "0 \<le> cs_score (aggregateCategory fs b cat) \<and> cs_score (aggregateCategory fs b cat) \<le> 100"
    for b cat
  proof (cases "categoryScoresOf fs cat = []")
    case True
    then show ?thesis by (simp add: aggregateCategory_def Let_def)
  next
    case False
    have "\<forall>x\<in>set (categoryScoresOf fs cat). 0 \<le> x \<and> x \<le> 100"
      using assms(1) by (auto simp: categoryScoresOf_def)
    moreover have "length (categoryScoresOf fs cat) < 2 ^ 40"
    proof -
      have "length (categoryScoresOf fs cat) \<le> 7 * length fs"
        using assms(1) by (intro categoryScoresOf_length) simp
      then show ?thesis using assms(2) by simp
    qed
    ultimately have
      "0 \<le> round (dbl (foldl (\<lambda>t x. dbl (t + of_int x)) 0 (categoryScoresOf fs cat) /
                          of_nat (length (categoryScoresOf fs cat))))
       \<and> round (dbl (foldl (\<lambda>t x. dbl (t + of_int x)) 0 (categoryScoresOf fs cat) /
                          of_nat (length (categoryScoresOf fs cat)))) \<le> 100"
      using False by (intro mean_in_0_100)
    with False show ?thesis
      by (simp add: aggregateCategory_def Let_def)
  qed
  show ?thesis using ov cat by (auto simp: generateSummary_def Let_def)
qed

lemma length_map_filter_le: "length (List.map_filter f xs) \<le> length xs"
  by (induction xs) (auto simp: List.map_filter_simps split: option.splits)

lemma reviewTestFiles_bounds:
  assumes "\<forall>r\<in>set (filterRules opts). 0 \<le> weight r" and "length tfs < 2 ^ 32"
  shows "0 \<le> overallScore (summary (reviewTestFiles d tfs opts))
         \<and> overallScore (summary (reviewTestFiles d tfs opts)) \<le> 100
         \<and> (\<forall>c\<in>set (summaryBreakdown (summary (reviewTestFiles d tfs opts))).
               0 \<le> cs_score c \<and> cs_score c \<le> 100)"
proof (cases "length tfs = 0")
  case True
  then show ?thesis by (simp add: reviewTestFiles_def createEmptySummary_def)
next
  case False
  define fs where "fs = List.map_filter
                (\<lambda>(filepath, r). case r of
                                    None \<Rightarrow> None
                                  | Some content \<Rightarrow> Some (reviewTestFile content filepath opts)) tfs"
  have len: "length fs < 2 ^ 32"
    unfolding fs_def using length_map_filter_le [of _ tfs] assms(2) by (meson le_less_trans)
  have "length (scoreBreakdown (reviewTestFile c f opts)) = 7" for c f
    using reviewTestFile_bounds [OF assms(1), of c f]
  proof -
    have "length (map cs_category (scoreBreakdown (reviewTestFile c f opts))) = length categoryKeys"
      using reviewTestFile_bounds [OF assms(1), of c f] by simp
    then show ?thesis by (simp add: categoryKeys_def)
  qed
  then have "\<forall>f\<in>set fs. 0 \<le> score f \<and> score f \<le> 100
             \<and> (\<forall>c\<in>set (scoreBreakdown f). 0 \<le> cs_score c \<and> cs_score c \<le> 100)
             \<and> length (scoreBreakdown f) = 7"
    unfolding fs_def using reviewTestFile_bounds [OF assms(1)]
    by (auto simp: List.map_filter_def split: option.splits)
  then have "0 \<le> overallScore (generateSummary fs) \<and> overallScore (generateSummary fs) \<le> 100
         \<and> (\<forall>c\<in>set (summaryBreakdown (generateSummary fs)). 0 \<le> cs_score c \<and> cs_score c \<le> 100)"
    using len by (rule generateSummary_bounds)
  with False show ?thesis by (simp add: reviewTestFiles_def Let_def fs_def)
qed

lemma negative_calculateScore:
  "fst (calculateScore [violation ''custom/negative'' 1] [quietRule, negativeRule]) = 105"
  by code_simp

text \<open>
  Claim C3 as stated (every score lies between 0 and 100 for every text, file name and
  options) does not hold: the options may carry a catalog of their own, and with a rule
  of negative weight a category score exceeds 100. Here the structure score is 200 and
  the file score is 105.
\<close>

theorem negative_weight_score_105:
  "score (reviewTestFile scenarioA ''a.test.ts'' negativeOptions) = 105
   \<and> score (reviewTestFile scenarioA ''a.test.ts'' negativeOptions) \<notin> {0..100}"
proof -
  have sel: "filterRules negativeOptions = [quietRule, negativeRule]"
    by (simp add: filterRules_def negativeOptions_def defaultOptions_def)
  have run: "runRules [quietRule, negativeRule] scenarioA ''a.test.ts'' =
               [violation ''custom/negative'' 1]"
    by (simp add: quietRule_def negativeRule_def)
  have "score (reviewTestFile scenarioA ''a.test.ts'' negativeOptions) = 105"
    by (simp only: reviewTestFile_def Let_def sel run negative_calculateScore
        ReviewedFile.select_convs)
  then show ?thesis by simp
qed

lemma allRules_weights:
  "map weight allRules =
     [8, 6, 9, 8, 9, 10, 9, 10, 7, 6, 7, 9, 3, 5, 4, 3, 7, 8, 6, 3, 4, 2, 2, 4, 2, 2, 5]"
  by (simp add: allRules_def flakyTestRules_def theaterRules_def overMockingRules_def
      assertionRules_def isolationRules_def maintainabilityRules_def structureRules_def)

text \<open>
  Claim C3, amended. For every text, file name and options under which every selected
  rule has a weight between 0 and 10 (the range of the data model, which every rule of
  the default catalog meets), and every run over fewer than \<open>2 ^ 32\<close> discovered files
  (an array holds no more), every score is an integer between 0 and 100: the score of a
  reviewed file, each of its seven category scores, the overall score of the run and
  each aggregate category score. (Scores are integers by their type.)
\<close>

theorem scores_between_0_and_100:
  assumes "\<forall>r\<in>set (filterRules opts). 0 \<le> weight r \<and> weight r \<le> 10"
    and "length testFiles < 2 ^ 32"
  shows "score (reviewTestFile content filename opts) \<in> {0..100}
   \<and> set (map cs_score (scoreBreakdown (reviewTestFile content filename opts))) \<subseteq> {0..100}
   \<and> map cs_category (scoreBreakdown (reviewTestFile content filename opts)) = categoryKeys
   \<and> overallScore (summary (reviewTestFiles d testFiles opts)) \<in> {0..100}
   \<and> set (map cs_score (summaryBreakdown (summary (reviewTestFiles d testFiles opts))))
       \<subseteq> {0..100}"
proof -
  have w: "\<forall>r\<in>set (filterRules opts). 0 \<le> weight r" using assms(1) by simp
  show ?thesis
    using reviewTestFile_bounds [OF w, of content filename]
      reviewTestFiles_bounds [OF w assms(2), of d]
    by auto
qed

theorem scores_between_0_and_100_witness:
  "map weight (filterRules defaultOptions) =
     [8, 6, 9, 8, 9, 10, 9, 10, 7, 6, 7, 9, 3, 5, 4, 3, 7, 8, 6, 3, 4, 2, 2, 4, 2, 2, 5]
   \<and> length [(''a.test.ts'', Some scenarioA)] < (2::nat) ^ 32
   \<and> score (reviewTestFile scenarioA ''a.test.ts'' defaultOptions) \<in> {0..100}
   \<and> set (map cs_score (scoreBreakdown (reviewTestFile scenarioA ''a.test.ts'' defaultOptions)))
       \<subseteq> {0..100}
   \<and> overallScore
        (summary (reviewTestFiles ''.'' [(''a.test.ts'', Some scenarioA)] defaultOptions))
       \<in> {0..100}
   \<and> set (map cs_score (summaryBreakdown
        (summary (reviewTestFiles ''.'' [(''a.test.ts'', Some scenarioA)] defaultOptions))))
       \<subseteq> {0..100}"
proof -
  have sel: "filterRules defaultOptions = allRules"
    by (simp add: filterRules_def defaultOptions_def)
  have ws: "map weight (filterRules defaultOptions) =
     [8, 6, 9, 8, 9, 10, 9, 10, 7, 6, 7, 9, 3, 5, 4, 3, 7, 8, 6, 3, 4, 2, 2, 4, 2, 2, 5]"
    by (simp only: sel allRules_weights)
  have "\<forall>w\<in>set (map weight (filterRules defaultOptions)). 0 \<le> w \<and> w \<le> 10"
    unfolding ws by simp
  then have h1: "\<forall>r\<in>set (filterRules defaultOptions). 0 \<le> weight r \<and> weight r \<le> 10"
    by simp
  have h2: "length [(''a.test.ts'', Some scenarioA)] < (2::nat) ^ 32" by simp
  from scores_between_0_and_100 [OF h1 h2, of scenarioA "''a.test.ts''" "''.''"] ws h2
  show ?thesis by blast
qed

subsection \<open>No rule selected\<close>

lemma no_rule_calculateScore:
  "(\<lambda>res. (fst res, map cs_category (snd res), map cs_score (snd res))) (calculateScore [] []) =
   (100, categoryKeys, replicate 7 100)"
  by code_simp

text \<open>
  Claim C4. If the selection leaves no rule, the reviewed file has no violation, its score
  is 100 and each of its seven category scores is 100, whatever the text and the file name.
\<close>

theorem no_rule_selected_scores_100:
  assumes "filterRules opts = []"
  shows "violations (reviewTestFile content filename opts) = []
         \<and> score (reviewTestFile content filename opts) = 100
         \<and> map cs_category (scoreBreakdown (reviewTestFile content filename opts)) = categoryKeys
         \<and> map cs_score (scoreBreakdown (reviewTestFile content filename opts)) = replicate 7 100"
  using assms no_rule_calculateScore
  by (simp add: reviewTestFile_def Let_def)

theorem no_rule_selected_scores_100_witness:
  "filterRules noRuleOptions = []
   \<and> violations (reviewTestFile scenarioA ''a.test.ts'' noRuleOptions) = []
   \<and> score (reviewTestFile scenarioA ''a.test.ts'' noRuleOptions) = 100
   \<and> map cs_score (scoreBreakdown (reviewTestFile scenarioA ''a.test.ts'' noRuleOptions)) =
       replicate 7 100"
proof -
  have sel: "filterRules noRuleOptions = []"
    by code_simp
  from no_rule_selected_scores_100 [OF sel, of scenarioA "''a.test.ts''"] sel show ?thesis
    by simp
qed

subsection \<open>Every rule of the catalog reports under its own id\<close>

lemma runRules_append:
  "runRules (xs @ ys) content filename =
     runRules xs content filename @ runRules ys content filename"
  by (induction xs) auto

lemma own_id_flaky:
  "r \<in> set flakyTestRules \<Longrightarrow> v \<in> set (case detect r content filename of Inr vs \<Rightarrow> vs | Inl e \<Rightarrow> []) \<Longrightarrow> ruleId v = rule_id r"
  by (auto simp: flakyTestRules_def detect_timing_dependency_def detect_random_data_def
      detect_async_without_await_def detect_shared_state_def detect_network_dependency_def
      per_match_def violation_def Let_def split: if_splits)

lemma own_id_theater:
  "r \<in> set theaterRules \<Longrightarrow> v \<in> set (case detect r content filename of Inr vs \<Rightarrow> vs | Inl e \<Rightarrow> []) \<Longrightarrow> ruleId v = rule_id r"
  by (auto simp: theaterRules_def detect_no_assertions_def detect_always_true_def
      detect_empty_test_def detect_console_only_def detect_expect_nothing_def
      per_match_def violation_def Let_def split: if_splits)

lemma own_id_assertions:
  "r \<in> set assertionRules \<Longrightarrow> v \<in> set (case detect r content filename of Inr vs \<Rightarrow> vs | Inl e \<Rightarrow> []) \<Longrightarrow> ruleId v = rule_id r"
  by (auto simp: assertionRules_def detect_weak_assertion_def detect_no_error_assertion_def
      detect_single_assertion_syndrome_def
      per_match_def violation_def Let_def split: if_splits)

lemma own_id_isolation:
  "r \<in> set isolationRules \<Longrightarrow> v \<in> set (case detect r content filename of Inr vs \<Rightarrow> vs | Inl e \<Rightarrow> []) \<Longrightarrow> ruleId v = rule_id r"
  by (auto simp: isolationRules_def detect_test_order_dependency_def detect_global_state_def
      detect_filesystem_side_effects_def
      per_match_def violation_def Let_def split: if_splits)

lemma own_id_maintainability:
  "r \<in> set maintainabilityRules \<Longrightarrow> v \<in> set (case detect r content filename of Inr vs \<Rightarrow> vs | Inl e \<Rightarrow> []) \<Longrightarrow> ruleId v = rule_id r"
  by (auto simp: maintainabilityRules_def detect_poor_test_name_def detect_deeply_nested_def
      detect_large_test_file_def detect_magic_numbers_def detect_commented_test_def
      per_match_def violation_def Let_def split: if_splits)

lemma own_id_structure:
  "r \<in> set structureRules \<Longrightarrow> v \<in> set (case detect r content filename of Inr vs \<Rightarrow> vs | Inl e \<Rightarrow> []) \<Longrightarrow> ruleId v = rule_id r"
  by (auto simp: structureRules_def detect_missing_describe_def detect_arrange_act_assert_def
      detect_multiple_acts_def
      per_match_def violation_def Let_def split: if_splits)

lemma own_id_mocking:
  "r \<in> set overMockingRules \<Longrightarrow> v \<in> set (case detect r content filename of Inr vs \<Rightarrow> vs | Inl e \<Rightarrow> []) \<Longrightarrow> ruleId v = rule_id r"
  by (auto simp: overMockingRules_def detect_excessive_mocking_def detect_mocking_what_you_test_def
      detect_mock_return_ignores_input_def
      per_match_def violation_def Let_def split: if_splits)

lemma no_foreign_id:
  assumes "\<And>r v. r \<in> set rs \<Longrightarrow> v \<in> set (case detect r content filename of Inr vs \<Rightarrow> vs | Inl e \<Rightarrow> []) \<Longrightarrow> ruleId v = rule_id r"
    and "rid \<notin> rule_id ` set rs"
  shows "filter (\<lambda>v. ruleId v = rid) (runRules rs content filename) = []"
  using assms
proof (induction rs)
  case Nil
  then show ?case by simp
next
  case (Cons r rs)
  have "filter (\<lambda>v. ruleId v = rid) (case detect r content filename of Inr vs \<Rightarrow> vs | Inl e \<Rightarrow> []) = []"
    using Cons.prems by (auto simp: filter_empty_conv)
  moreover have "filter (\<lambda>v. ruleId v = rid) (runRules rs content filename) = []"
    using Cons by auto
  ultimately show ?case by simp
qed

lemma mocking_rules_fire:
  "filter (\<lambda>v. ruleId v = ''mock/excessive-mocking'') (runRules overMockingRules content filename) =
     (if 5 < totalMocks content \<and> 2 * expectCount content < totalMocks content
      then [violation ''mock/excessive-mocking'' 1] else [])"
  by (auto simp: overMockingRules_def detect_excessive_mocking_def detect_mocking_what_you_test_def
      detect_mock_return_ignores_input_def violation_def Let_def filter_empty_conv mult.commute)

lemma excessive_mocking_in_review:
  "filter (\<lambda>v. ruleId v = ''mock/excessive-mocking'') (violations (reviewTestFile content filename defaultOptions)) =
     (if 5 < totalMocks content \<and> 2 * expectCount content < totalMocks content
      then [violation ''mock/excessive-mocking'' 1] else [])"
proof -
  have sel: "filterRules defaultOptions = allRules"
    by (simp add: filterRules_def defaultOptions_def)
  have 1: "filter (\<lambda>v. ruleId v = ''mock/excessive-mocking'') (runRules flakyTestRules content filename) = []"
    by (rule no_foreign_id [OF own_id_flaky]) (simp_all add: flakyTestRules_def)
  have 2: "filter (\<lambda>v. ruleId v = ''mock/excessive-mocking'') (runRules theaterRules content filename) = []"
    by (rule no_foreign_id [OF own_id_theater]) (simp_all add: theaterRules_def)
  have 3: "filter (\<lambda>v. ruleId v = ''mock/excessive-mocking'') (runRules assertionRules content filename) = []"
    by (rule no_foreign_id [OF own_id_assertions]) (simp_all add: assertionRules_def)
  have 4: "filter (\<lambda>v. ruleId v = ''mock/excessive-mocking'') (runRules isolationRules content filename) = []"
    by (rule no_foreign_id [OF own_id_isolation]) (simp_all add: isolationRules_def)
  have 5: "filter (\<lambda>v. ruleId v = ''mock/excessive-mocking'') (runRules maintainabilityRules content filename) = []"
    by (rule no_foreign_id [OF own_id_maintainability]) (simp_all add: maintainabilityRules_def)
  have 6: "filter (\<lambda>v. ruleId v = ''mock/excessive-mocking'') (runRules structureRules content filename) = []"
    by (rule no_foreign_id [OF own_id_structure]) (simp_all add: structureRules_def)
  show ?thesis
    by (simp only: reviewTestFile_def Let_def sel allRules_def runRules_append filter_append
        1 2 3 4 5 6 mocking_rules_fire ReviewedFile.simps append_Nil append_Nil2)
qed

lemma foldl_plus_sum_list: "foldl (+) (a::nat) xs = a + sum_list xs"
  by (induction xs arbitrary: a) simp_all

lemma totalMocks_sum:
  "totalMocks content = sum_list (map (\<lambda>p. count_matches p content) mockPatterns)"
  by (simp add: totalMocks_def foldl_plus_sum_list)

lemma scenarioE_counts:
  "map (\<lambda>p. count_matches p scenarioE) mockPatterns = [2, 1, 1, 1, 1]
   \<and> count_matches pat_expect scenarioE = 1"
  by code_simp

text \<open>
  Claim C8. In the review of a text against the full catalog, the number of
  \<^verbatim>\<open>mock/excessive-mocking\<close> violations is one if the matches of the five mock
  patterns (\<^verbatim>\<open>jest.mock(\<close>, \<^verbatim>\<open>vi.mock(\<close>, \<^verbatim>\<open>spyOn(\<close>, \<^verbatim>\<open>fn(\<close>,
  \<^verbatim>\<open>.mockImplementation(\<close>) are together more than 5 and more than twice the matches
  of \<^verbatim>\<open>expect(\<close>, and zero otherwise. The text of scenario E has 2, 1, 1, 1 and 1
  matches of the mock patterns and one assertion, and gets exactly one violation.
\<close>

theorem excessive_mocking_threshold:
  "length (filter (\<lambda>v. ruleId v = ''mock/excessive-mocking'')
             (violations (reviewTestFile content filename defaultOptions))) =
     (if 5 < sum_list (map (\<lambda>p. count_matches p content) mockPatterns)
         \<and> 2 * count_matches pat_expect content
             < sum_list (map (\<lambda>p. count_matches p content) mockPatterns)
      then 1 else 0)
   \<and> map (\<lambda>p. count_matches p scenarioE) mockPatterns = [2, 1, 1, 1, 1]
   \<and> count_matches pat_expect scenarioE = 1
   \<and> length (filter (\<lambda>v. ruleId v = ''mock/excessive-mocking'')
               (violations (reviewTestFile scenarioE filename defaultOptions))) = 1"
proof -
  have gen: "length (filter (\<lambda>v. ruleId v = ''mock/excessive-mocking'')
             (violations (reviewTestFile c filename defaultOptions))) =
     (if 5 < sum_list (map (\<lambda>p. count_matches p c) mockPatterns)
         \<and> 2 * count_matches pat_expect c
             < sum_list (map (\<lambda>p. count_matches p c) mockPatterns)
      then 1 else 0)" for c
    by (simp add: excessive_mocking_in_review totalMocks_sum [symmetric] expectCount_def)
  have "length (filter (\<lambda>v. ruleId v = ''mock/excessive-mocking'')
               (violations (reviewTestFile scenarioE filename defaultOptions))) = 1"
    unfolding gen using scenarioE_counts by simp
  with gen [of content] scenarioE_counts show ?thesis by simp
qed

subsection \<open>Scenario A\<close>

lemma scenarioA_network: "matchAllWithLineNumbers scenarioA pat_network_call = []"
  by code_simp

lemma scenarioA_flaky: "runRules flakyTestRules scenarioA filename = []"
proof -
  have "detect_timing_dependency scenarioA filename = Inr []" by code_simp
  moreover have "detect_random_data scenarioA filename = Inr []" by code_simp
  moreover have "detect_async_without_await scenarioA filename = Inr []" by code_simp
  moreover have "detect_shared_state scenarioA filename = Inr []" by code_simp
  moreover have "detect_network_dependency scenarioA filename = Inr []"
    by (simp add: detect_network_dependency_def scenarioA_network Let_def)
  ultimately show ?thesis by (simp add: flakyTestRules_def)
qed

lemma scenarioA_theater:
  "runRules theaterRules scenarioA filename =
     [violation ''theater/no-assertions'' 1, violation ''theater/empty-test'' 1]"
proof -
  have "detect_no_assertions scenarioA filename = Inr [violation ''theater/no-assertions'' 1]"
    by code_simp
  moreover have "detect_always_true scenarioA filename = Inr []" by code_simp
  moreover have "detect_empty_test scenarioA filename = Inr [violation ''theater/empty-test'' 1]"
    by code_simp
  moreover have "detect_console_only scenarioA filename = Inr []" by code_simp
  moreover have "detect_expect_nothing scenarioA filename = Inr []" by code_simp
  ultimately show ?thesis by (simp add: theaterRules_def)
qed

lemma scenarioA_mocking: "runRules overMockingRules scenarioA filename = []"
proof -
  have "detect_excessive_mocking scenarioA filename = Inr []" by code_simp
  moreover have "detect_mocking_what_you_test scenarioA filename = Inr []" by code_simp
  moreover have "detect_mock_return_ignores_input scenarioA filename = Inr []" by code_simp
  ultimately show ?thesis by (simp add: overMockingRules_def)
qed

lemma scenarioA_assertions: "runRules assertionRules scenarioA filename = []"
proof -
  have "detect_weak_assertion scenarioA filename = Inr []" by code_simp
  moreover have "detect_no_error_assertion scenarioA filename = Inr []" by code_simp
  moreover have "detect_single_assertion_syndrome scenarioA filename = Inr []" by code_simp
  ultimately show ?thesis by (simp add: assertionRules_def)
qed

lemma scenarioA_isolation: "runRules isolationRules scenarioA filename = []"
proof -
  have "detect_test_order_dependency scenarioA filename = Inr []" by code_simp
  moreover have "detect_global_state scenarioA filename = Inr []" by code_simp
  moreover have "detect_filesystem_side_effects scenarioA filename = Inr []" by code_simp
  ultimately show ?thesis by (simp add: isolationRules_def)
qed

lemma scenarioA_maintainability:
  "runRules maintainabilityRules scenarioA filename = [violation ''maintain/poor-test-name'' 1]"
proof -
  have "detect_poor_test_name scenarioA filename = Inr [violation ''maintain/poor-test-name'' 1]"
    by code_simp
  moreover have "detect_deeply_nested scenarioA filename = Inr []" by code_simp
  moreover have "detect_large_test_file scenarioA filename = Inr []" by code_simp
  moreover have "detect_magic_numbers scenarioA filename = Inr []" by code_simp
  moreover have "detect_commented_test scenarioA filename = Inr []" by code_simp
  ultimately show ?thesis by (simp add: maintainabilityRules_def)
qed

lemma scenarioA_structure:
  "runRules structureRules scenarioA filename = [violation ''structure/missing-describe'' 1]"
proof -
  have "detect_missing_describe scenarioA filename = Inr [violation ''structure/missing-describe'' 1]"
    by code_simp
  moreover have "detect_arrange_act_assert scenarioA filename = Inr []" by code_simp
  moreover have "detect_multiple_acts scenarioA filename = Inr []" by code_simp
  ultimately show ?thesis by (simp add: structureRules_def)
qed

lemma scenarioA_runRules:
  "runRules allRules scenarioA filename =
     [violation ''theater/no-assertions'' 1, violation ''theater/empty-test'' 1,
      violation ''maintain/poor-test-name'' 1, violation ''structure/missing-describe'' 1]"
  by (simp add: allRules_def runRules_append scenarioA_flaky scenarioA_theater scenarioA_mocking
      scenarioA_assertions scenarioA_isolation scenarioA_maintainability scenarioA_structure)

lemma scenarioA_calculateScore:
  "(\<lambda>res. (fst res, map (\<lambda>c. (cs_category c, cs_score c)) (snd res)))
     (calculateScore
        [violation ''theater/no-assertions'' 1, violation ''theater/empty-test'' 1,
         violation ''maintain/poor-test-name'' 1, violation ''structure/missing-describe'' 1]
        allRules) =
   (87, [(Theater, 52), (Flaky, 100), (OverMocking, 100), (Assertions, 100), (Isolation, 100),
         (Maintainability, 94), (Structure, 93)])"
  by code_simp

lemma scenarioA_review:
  "violations (reviewTestFile scenarioA filename defaultOptions) =
     [violation ''theater/no-assertions'' 1, violation ''theater/empty-test'' 1,
      violation ''maintain/poor-test-name'' 1, violation ''structure/missing-describe'' 1]
   \<and> score (reviewTestFile scenarioA filename defaultOptions) = 87
   \<and> map (\<lambda>c. (cs_category c, cs_score c))
        (scoreBreakdown (reviewTestFile scenarioA filename defaultOptions)) =
      [(Theater, 52), (Flaky, 100), (OverMocking, 100), (Assertions, 100), (Isolation, 100),
       (Maintainability, 94), (Structure, 93)]"
proof -
  have sel: "filterRules defaultOptions = allRules"
    by (simp add: filterRules_def defaultOptions_def)
  show ?thesis
    using scenarioA_calculateScore
    by (simp add: reviewTestFile_def Let_def sel scenarioA_runRules)
qed

text \<open>
  Claim C1 as stated (scenario A yields the single violation \<^verbatim>\<open>theater/empty-test\<close>, a
  theater score of 76 and a file score of 94) does not hold for the file
  \<^verbatim>\<open>a.test.ts\<close>.
\<close>

theorem scenarioA_not_one_violation:
  "\<not> (map ruleId (violations (reviewTestFile scenarioA ''a.test.ts'' defaultOptions)) =
         [''theater/empty-test'']
       \<and> map (\<lambda>c. (cs_category c, cs_score c))
            (scoreBreakdown (reviewTestFile scenarioA ''a.test.ts'' defaultOptions)) =
          [(Theater, 76), (Flaky, 100), (OverMocking, 100), (Assertions, 100), (Isolation, 100),
           (Maintainability, 100), (Structure, 100)]
       \<and> score (reviewTestFile scenarioA ''a.test.ts'' defaultOptions) = 94)"
  by (simp add: scenarioA_review violation_def)

text \<open>
  Claim C1, amended. Reviewed against the full default catalog, under any file name, the
  text of scenario A has exactly four violations, in this order:
  \<^verbatim>\<open>theater/no-assertions\<close>, \<^verbatim>\<open>theater/empty-test\<close>, \<^verbatim>\<open>maintain/poor-test-name\<close> and
  \<^verbatim>\<open>structure/missing-describe\<close>. The theater score is 52, the maintainability score 94,
  the structure score 93, every other category score 100, and the file score is 87.
  (The scores are computed in doubles, as in the source.)
\<close>

theorem scenarioA_four_violations:
  "map ruleId (violations (reviewTestFile scenarioA filename defaultOptions)) =
     [''theater/no-assertions'', ''theater/empty-test'', ''maintain/poor-test-name'',
      ''structure/missing-describe'']
   \<and> map (\<lambda>c. (cs_category c, cs_score c))
        (scoreBreakdown (reviewTestFile scenarioA filename defaultOptions)) =
      [(Theater, 52), (Flaky, 100), (OverMocking, 100), (Assertions, 100), (Isolation, 100),
       (Maintainability, 94), (Structure, 93)]
   \<and> score (reviewTestFile scenarioA filename defaultOptions) = 87"
  by (simp add: scenarioA_review violation_def)

subsection \<open>Rules that throw\<close>

lemma runRules_concat:
  "runRules rs content filename =
     concat (map (\<lambda>r. case detect r content filename of Inr vs \<Rightarrow> vs | Inl e \<Rightarrow> []) rs)"
  by (induction rs) auto

lemma runRules_exn_eq:
  "runRules_exn rs content filename vs = Inr (vs @ runRules rs content filename)"
  by (induction rs arbitrary: vs) (auto simp: attempt_def split: sum.splits)

lemma reviewTestFile_exn_returns:
  "reviewTestFile_exn content filename opts = Inr (reviewTestFile content filename opts)"
  by (simp add: reviewTestFile_exn_def reviewTestFile_def runRules_exn_eq Let_def)

text \<open>
  Claim C6. \<^verbatim>\<open>reviewTestFile\<close> returns a reviewed file on every input: with the
  propagation of exceptions written out, its result is never a thrown value. When a
  selected rule throws, the violations of the file are what the \<^verbatim>\<open>detect\<close> functions
  of the other selected rules return, in the order of the rules: the throwing rule
  contributes none and the others are unaffected.
\<close>

theorem throwing_rule_is_contained:
  assumes "filterRules opts = before @ r # after"
    and "detect r content filename = Inl e"
  shows "reviewTestFile_exn content filename opts = Inr (reviewTestFile content filename opts)
         \<and> violations (reviewTestFile content filename opts) =
             concat (map (\<lambda>r'. case detect r' content filename of
                                  Inr ruleViolations \<Rightarrow> ruleViolations
                                | Inl e' \<Rightarrow> [])
                       (before @ after))"
  using assms
  by (simp add: reviewTestFile_exn_returns)
     (simp add: reviewTestFile_def Let_def runRules_concat)

theorem throwing_rule_is_contained_witness:
  "filterRules throwingOptions = theaterRules @ throwingRule # structureRules
   \<and> detect throwingRule scenarioA ''a.test.ts'' = Inl (Thrown ''boom'')
   \<and> reviewTestFile_exn scenarioA ''a.test.ts'' throwingOptions =
       Inr (reviewTestFile scenarioA ''a.test.ts'' throwingOptions)
   \<and> violations (reviewTestFile scenarioA ''a.test.ts'' throwingOptions) =
       [\<lparr>ruleId = ''theater/no-assertions'', line = Some 1\<rparr>,
        \<lparr>ruleId = ''theater/empty-test'', line = Some 1\<rparr>,
        \<lparr>ruleId = ''structure/missing-describe'', line = Some 1\<rparr>]"
proof -
  have sel: "filterRules throwingOptions = theaterRules @ throwingRule # structureRules"
    by (simp add: filterRules_def throwingOptions_def defaultOptions_def)
  have thr: "detect throwingRule scenarioA ''a.test.ts'' = Inl (Thrown ''boom'')"
    by (simp add: throwingRule_def)
  have others: "concat (map (\<lambda>r'. case detect r' scenarioA ''a.test.ts'' of
                                  Inr ruleViolations \<Rightarrow> ruleViolations
                                | Inl e' \<Rightarrow> [])
                       (theaterRules @ structureRules)) =
       [\<lparr>ruleId = ''theater/no-assertions'', line = Some 1\<rparr>,
        \<lparr>ruleId = ''theater/empty-test'', line = Some 1\<rparr>,
        \<lparr>ruleId = ''structure/missing-describe'', line = Some 1\<rparr>]"
    by (simp only: runRules_concat [symmetric] runRules_append scenarioA_theater
        scenarioA_structure violation_def append.simps)
  from throwing_rule_is_contained [OF sel thr] sel thr others show ?thesis
    by simp
qed

subsection \<open>Top issues\<close>

lemma set_insort_cmp: "set (insort_cmp cmp x xs) = insert x (set xs)"
  by (induction xs) auto

lemma length_insort_cmp: "length (insort_cmp cmp x xs) = Suc (length xs)"
  by (induction xs) auto

lemma distinct_map_insort_cmp:
  "distinct (map f (insort_cmp cmp x xs)) = (f x \<notin> f ` set xs \<and> distinct (map f xs))"
  by (induction xs) (auto simp: set_insort_cmp)

lemma sorted_insort_cmp:
  assumes trans: "\<And>a b c. cmp a b \<le> 0 \<Longrightarrow> cmp b c \<le> 0 \<Longrightarrow> cmp a c \<le> 0"
    and total: "\<And>a b. cmp a b \<le> 0 \<or> cmp b a \<le> 0"
    and "sorted_wrt (\<lambda>a b. cmp a b \<le> 0) xs"
  shows "sorted_wrt (\<lambda>a b. cmp a b \<le> 0) (insort_cmp cmp x xs)"
  using assms(3)
proof (induction xs)
  case Nil
  then show ?case by simp
next
  case (Cons y ys)
  show ?case
  proof (cases "cmp x y \<le> 0")
    case True
    then have "\<forall>z\<in>set ys. cmp x z \<le> 0" using Cons.prems trans by auto
    with True Cons.prems show ?thesis by simp
  next
    case False
    then have "cmp y x \<le> 0" using total [of x y] by simp
    with False Cons show ?thesis by (auto simp: set_insort_cmp)
  qed
qed

lemma set_sort_cmp: "set (sort_cmp cmp xs) = set xs"
  by (induction xs) (simp_all add: sort_cmp_def set_insort_cmp)

lemma length_sort_cmp: "length (sort_cmp cmp xs) = length xs"
  by (induction xs) (simp_all add: sort_cmp_def length_insort_cmp)

lemma distinct_map_sort_cmp: "distinct (map f (sort_cmp cmp xs)) = distinct (map f xs)"
proof (induction xs)
  case Nil
  then show ?case by (simp add: sort_cmp_def)
next
  case (Cons x xs)
  have "sort_cmp cmp (x # xs) = insort_cmp cmp x (sort_cmp cmp xs)"
    by (simp add: sort_cmp_def)
  with Cons show ?case by (simp add: distinct_map_insort_cmp set_sort_cmp)
qed

lemma sorted_sort_cmp:
  assumes "\<And>a b c. cmp a b \<le> 0 \<Longrightarrow> cmp b c \<le> 0 \<Longrightarrow> cmp a c \<le> 0"
    and "\<And>a b. cmp a b \<le> 0 \<or> cmp b a \<le> 0"
  shows "sorted_wrt (\<lambda>a b. cmp a b \<le> 0) (sort_cmp cmp xs)"
proof (induction xs)
  case Nil
  then show ?case by (simp add: sort_cmp_def)
next
  case (Cons x xs)
  have "sort_cmp cmp (x # xs) = insort_cmp cmp x (sort_cmp cmp xs)"
    by (simp add: sort_cmp_def)
  with Cons sorted_insort_cmp [of cmp, OF assms] show ?case by simp
qed

lemma compareIssues_spec: "compareIssues a b \<le> 0 \<longleftrightarrow> spec_order a b"
  by (cases "issue_severity a"; cases "issue_severity b")
     (auto simp: compareIssues_def spec_order_def Let_def)

lemma compareIssues_trans:
  "compareIssues a b \<le> 0 \<Longrightarrow> compareIssues b c \<le> 0 \<Longrightarrow> compareIssues a c \<le> 0"
  unfolding compareIssues_spec
  by (cases "issue_severity a"; cases "issue_severity b"; cases "issue_severity c")
     (auto simp: spec_order_def)

lemma compareIssues_total: "compareIssues a b \<le> 0 \<or> compareIssues b a \<le> 0"
  unfolding compareIssues_spec
  by (cases "issue_severity a"; cases "issue_severity b") (auto simp: spec_order_def)

lemma sorted_issues: "sorted_wrt spec_order (sort_cmp compareIssues xs)"
  using sorted_sort_cmp [of compareIssues xs, OF compareIssues_trans compareIssues_total]
  by (simp add: compareIssues_spec)

lemma map_rule_bump:
  "map rule (bump r acc) =
     (if rule_id r \<in> rule ` set acc then map rule acc else map rule acc @ [rule_id r])"
  by (induction acc) auto

lemma bump_entries:
  assumes "distinct (map rule acc)" and "e' \<in> set (bump r acc)"
  shows "(e' \<in> set acc \<and> rule e' \<noteq> rule_id r)
         \<or> (\<exists>e\<in>set acc. rule e = rule_id r \<and> e' = e\<lparr>count := count e + 1\<rparr>)
         \<or> (rule_id r \<notin> rule ` set acc
             \<and> e' = \<lparr>rule = rule_id r, count = 1, issue_severity = severity r\<rparr>)"
  using assms
proof (induction acc)
  case Nil
  then show ?case by simp
next
  case (Cons a acc)
  show ?case
  proof (cases "rule a = rule_id r")
    case True
    with Cons.prems show ?thesis by (auto simp: image_iff)
  next
    case False
    with Cons show ?thesis by auto
  qed
qed

lemma violationCounts_snoc: "violationCounts (rs @ [r]) = bump r (violationCounts rs)"
  by (simp add: violationCounts_def)

lemma violationCounts_rules:
  "distinct (map rule (violationCounts rs)) \<and> rule ` set (violationCounts rs) = rule_id ` set rs"
proof (induction rs rule: rev_induct)
  case Nil
  then show ?case by (simp add: violationCounts_def)
next
  case (snoc r rs)
  have "set (map rule (bump r (violationCounts rs))) = insert (rule_id r) (rule ` set (violationCounts rs))"
    by (auto simp: map_rule_bump)
  moreover have "distinct (map rule (bump r (violationCounts rs)))"
    using snoc by (auto simp: map_rule_bump)
  ultimately show ?case using snoc by (simp add: violationCounts_snoc)
qed

lemma violationCounts_entries:
  assumes "e \<in> set (violationCounts rs)"
  shows "count e = length (filter (\<lambda>r. rule_id r = rule e) rs)
         \<and> (\<exists>r\<in>set rs. rule_id r = rule e \<and> severity r = issue_severity e)"
  using assms
proof (induction rs arbitrary: e rule: rev_induct)
  case Nil
  then show ?case by (simp add: violationCounts_def)
next
  case (snoc r rs)
  have d: "distinct (map rule (violationCounts rs))"
    and s: "rule ` set (violationCounts rs) = rule_id ` set rs"
    using violationCounts_rules [of rs] by simp_all
  from snoc.prems have "e \<in> set (bump r (violationCounts rs))"
    by (simp add: violationCounts_snoc)
  from bump_entries [OF d this]
  consider (old) "e \<in> set (violationCounts rs)" "rule e \<noteq> rule_id r"
    | (upd) e0 where "e0 \<in> set (violationCounts rs)" "rule e0 = rule_id r"
        "e = e0\<lparr>count := count e0 + 1\<rparr>"
    | (new) "rule_id r \<notin> rule ` set (violationCounts rs)"
        "e = \<lparr>rule = rule_id r, count = 1, issue_severity = severity r\<rparr>"
    by blast
  then show ?case
  proof cases
    case old
    with snoc.IH [of e] show ?thesis by auto
  next
    case upd
    with snoc.IH [of e0] show ?thesis by auto
  next
    case new
    then have "filter (\<lambda>r'. rule_id r' = rule_id r) rs = []"
      unfolding s by (auto simp: filter_empty_conv image_iff)
    with new show ?thesis by simp
  qed
qed

lemma findRule_id: "findRule rid = Some r \<Longrightarrow> rule_id r = rid"
  by (auto simp: findRule_def find_Some_iff)

lemma knownRules_member:
  "r \<in> set (knownRules vs) \<longleftrightarrow> (\<exists>v\<in>set vs. findRule (ruleId v) = Some r)"
  by (induction vs) (auto simp: knownRules_def List.map_filter_simps split: option.splits)

lemma knownRules_find: "r \<in> set (knownRules vs) \<Longrightarrow> findRule (rule_id r) = Some r"
  using findRule_id by (fastforce simp: knownRules_member)

lemma knownRules_ids:
  "map rule_id (knownRules vs) = filter (\<lambda>rid. findRule rid \<noteq> None) (map ruleId vs)"
proof (induction vs)
  case Nil
  then show ?case by (simp add: knownRules_def List.map_filter_simps)
next
  case (Cons v vs)
  then show ?case
    by (cases "findRule (ruleId v)")
       (auto simp: knownRules_def List.map_filter_simps dest: findRule_id)
qed

lemma knownRules_count:
  "findRule x \<noteq> None \<Longrightarrow>
     length (filter (\<lambda>r. rule_id r = x) (knownRules vs)) = length (filter (\<lambda>v. ruleId v = x) vs)"
proof (induction vs)
  case Nil
  then show ?case by (simp add: knownRules_def List.map_filter_simps)
next
  case (Cons v vs)
  then show ?case
    by (cases "findRule (ruleId v)")
       (auto simp: knownRules_def List.map_filter_simps dest: findRule_id)
qed

lemma runRules_member:
  "v \<in> set (runRules rs content filename) \<Longrightarrow>
     \<exists>r\<in>set rs. v \<in> set (case detect r content filename of Inr vs \<Rightarrow> vs | Inl e \<Rightarrow> [])"
  by (induction rs) auto

lemma own_id_catalog:
  assumes "r \<in> set allRules"
    and "v \<in> set (case detect r content filename of Inr vs \<Rightarrow> vs | Inl e \<Rightarrow> [])"
  shows "ruleId v = rule_id r"
proof -
  from assms(1) have "r \<in> set flakyTestRules \<or> r \<in> set theaterRules
      \<or> r \<in> set overMockingRules \<or> r \<in> set assertionRules \<or> r \<in> set isolationRules
      \<or> r \<in> set maintainabilityRules \<or> r \<in> set structureRules"
    by (simp add: allRules_def)
  then show ?thesis
  proof (elim disjE)
    assume "r \<in> set flakyTestRules"
    then show ?thesis using assms(2) by (rule own_id_flaky)
  next
    assume "r \<in> set theaterRules"
    then show ?thesis using assms(2) by (rule own_id_theater)
  next
    assume "r \<in> set overMockingRules"
    then show ?thesis using assms(2) by (rule own_id_mocking)
  next
    assume "r \<in> set assertionRules"
    then show ?thesis using assms(2) by (rule own_id_assertions)
  next
    assume "r \<in> set isolationRules"
    then show ?thesis using assms(2) by (rule own_id_isolation)
  next
    assume "r \<in> set maintainabilityRules"
    then show ?thesis using assms(2) by (rule own_id_maintainability)
  next
    assume "r \<in> set structureRules"
    then show ?thesis using assms(2) by (rule own_id_structure)
  qed
qed

lemma findRule_catalog: "r \<in> set allRules \<Longrightarrow> findRule (rule_id r) \<noteq> None"
  by (auto simp: findRule_def find_None_iff)

lemma default_review_ids_known:
  "v \<in> set (violations (reviewTestFile content filename (opts\<lparr>rules := None\<rparr>))) \<Longrightarrow>
     findRule (ruleId v) \<noteq> None"
proof -
  assume "v \<in> set (violations (reviewTestFile content filename (opts\<lparr>rules := None\<rparr>)))"
  then have "v \<in> set (runRules (filterRules (opts\<lparr>rules := None\<rparr>)) content filename)"
    by (simp add: reviewTestFile_def Let_def)
  then obtain r where r: "r \<in> set (filterRules (opts\<lparr>rules := None\<rparr>))"
    and v: "v \<in> set (case detect r content filename of Inr vs \<Rightarrow> vs | Inl e \<Rightarrow> [])"
    using runRules_member by blast
  from r have a: "r \<in> set allRules"
    using filter_rules_subset [of "opts\<lparr>rules := None\<rparr>"] by auto
  from own_id_catalog [OF a v] findRule_catalog [OF a] show ?thesis by simp
qed

lemma default_run_ids_known:
  "filter (\<lambda>v. findRule (ruleId v) = None)
     (concat (map violations (files (reviewTestFiles d testFiles (opts\<lparr>rules := None\<rparr>))))) = []"
proof -
  have "\<forall>f\<in>set (files (reviewTestFiles d testFiles (opts\<lparr>rules := None\<rparr>))).
          \<forall>v\<in>set (violations f). findRule (ruleId v) \<noteq> None"
    using default_review_ids_known
    by (auto simp: reviewTestFiles_def Let_def List.map_filter_def split: option.splits)
  then show ?thesis by (auto simp: filter_empty_conv)
qed

lemma custom_review:
  "violations (reviewTestFile scenarioA ''a.test.ts'' customOptions) =
     [\<lparr>ruleId = ''custom/always'', line = Some 1\<rparr>]"
  by (simp add: reviewTestFile_def Let_def filterRules_def customOptions_def defaultOptions_def
      alwaysRule_def violation_def)

lemma custom_not_in_catalog:
  "knownRules [\<lparr>ruleId = ''custom/always'', line = Some 1\<rparr>] = []"
  by code_simp

text \<open>
  Claim C7 as stated (the top issues group all violations of every list of reviewed
  files) does not hold: a violation whose rule id is not in the default catalog is
  skipped. The file reviewed with a custom rule has one violation and no top issue.
\<close>

theorem custom_violation_not_grouped:
  "violations (reviewTestFile scenarioA ''a.test.ts'' customOptions) =
     [\<lparr>ruleId = ''custom/always'', line = Some 1\<rparr>]
   \<and> totalViolations (generateSummary [reviewTestFile scenarioA ''a.test.ts'' customOptions]) = 1
   \<and> topIssues (generateSummary [reviewTestFile scenarioA ''a.test.ts'' customOptions]) = []"
proof -
  let ?R = "reviewTestFile scenarioA ''a.test.ts'' customOptions"
  have t: "topIssues (generateSummary [?R]) =
             take 10 (sort_cmp compareIssues (violationCounts (knownRules (violations ?R))))"
    by (simp add: generateSummary_def Let_def)
  have "violationCounts (knownRules (violations ?R)) = []"
    by (simp only: custom_review custom_not_in_catalog violationCounts_def foldl.simps)
  then have top: "topIssues (generateSummary [?R]) = []"
    by (simp only: t sort_cmp_def foldr.simps take.simps id_apply)
  have "totalViolations (generateSummary [?R]) = length (violations ?R)"
    by (simp add: generateSummary_def Let_def)
  then have tot: "totalViolations (generateSummary [?R]) = 1"
    by (simp only: custom_review) simp
  from custom_review tot top show ?thesis by blast
qed

text \<open>
  Claim C7, amended. For every list of reviewed files, \<^verbatim>\<open>topIssues\<close> groups by rule id
  the violations whose rule id is in the default catalog (any other violation is left
  out): there is one group for each such id, with the number of its violations in all
  the files and the severity of the catalog rule. The groups are sorted by severity
  (error before warning before info) and, within one severity, by descending count, and
  \<^verbatim>\<open>topIssues\<close> is the first ten of them (all of them when there are at most ten): it
  has \<open>min 10 n\<close> entries for \<open>n\<close> groups, and a group left out comes after every
  entry. In a run with the catalog of the engine every violation has a catalog id.
\<close>

theorem topIssues_grouped_sorted_truncated:
  "let vs = concat (map violations fs);
       ids = remdups (filter (\<lambda>rid. findRule rid \<noteq> None) (map ruleId vs));
       ti = topIssues (generateSummary fs)
   in length ti = min 10 (length ids)
      \<and> sorted_wrt spec_order ti
      \<and> distinct (map rule ti)
      \<and> set (map rule ti) \<subseteq> set ids
      \<and> (\<forall>e\<in>set ti. count e = length (filter (\<lambda>v. ruleId v = rule e) vs)
                     \<and> (\<exists>r. findRule (rule e) = Some r \<and> issue_severity e = severity r))
      \<and> (\<forall>x\<in>set ids. \<forall>r. findRule x = Some r \<longrightarrow> x \<notin> set (map rule ti) \<longrightarrow>
            (\<forall>e\<in>set ti. spec_order e
               \<lparr>rule = x, count = length (filter (\<lambda>v. ruleId v = x) vs),
                issue_severity = severity r\<rparr>))
      \<and> filter (\<lambda>v. findRule (ruleId v) = None)
          (concat (map violations (files (reviewTestFiles d testFiles (opts\<lparr>rules := None\<rparr>)))))
          = []"
proof -
  define vs where "vs = concat (map violations fs)"
  define ids where "ids = remdups (filter (\<lambda>rid. findRule rid \<noteq> None) (map ruleId vs))"
  define groups where "groups = violationCounts (knownRules vs)"
  define srt where "srt = sort_cmp compareIssues groups"
  define ti where "ti = take 10 srt"
  have ti: "topIssues (generateSummary fs) = ti"
    by (simp add: generateSummary_def Let_def ti_def srt_def groups_def vs_def)
  have dg: "distinct (map rule groups)" and sg: "rule ` set groups = rule_id ` set (knownRules vs)"
    using violationCounts_rules [of "knownRules vs"] by (simp_all add: groups_def)
  have sids: "set ids = set (map rule_id (knownRules vs))"
    by (simp add: ids_def knownRules_ids)
  have sg': "set (map rule groups) = set ids" using sg sids by simp
  have "length groups = length (map rule groups)" by simp
  also have "\<dots> = card (set (map rule groups))" using distinct_card [OF dg] by simp
  also have "\<dots> = card (set (map rule_id (knownRules vs)))" using sg by simp
  also have "\<dots> = length (remdups (map rule_id (knownRules vs)))"
    by (simp add: length_remdups_card_conv)
  finally have lg: "length groups = length ids" by (simp add: ids_def knownRules_ids)
  have len: "length ti = min 10 (length ids)"
    by (simp add: ti_def srt_def length_sort_cmp lg min.commute)
  have ssrt: "sorted_wrt spec_order srt" unfolding srt_def by (rule sorted_issues)
  have srtd: "sorted_wrt spec_order ti"
    unfolding ti_def using ssrt by (rule sorted_wrt_take)
  have "distinct (map rule srt)" using dg by (simp add: srt_def distinct_map_sort_cmp)
  then have dst: "distinct (map rule ti)"
    unfolding ti_def by (simp add: take_map [symmetric])
  have sub: "set ti \<subseteq> set groups"
    unfolding ti_def srt_def using set_take_subset [of 10 "sort_cmp compareIssues groups"]
    by (simp add: set_sort_cmp)
  have subids: "set (map rule ti) \<subseteq> set ids" using sub sg' by auto
  have entry: "count g = length (filter (\<lambda>v. ruleId v = rule g) vs)
               \<and> (\<exists>r. findRule (rule g) = Some r \<and> issue_severity g = severity r)"
    if "g \<in> set groups" for g
  proof -
    from that have "g \<in> set (violationCounts (knownRules vs))" by (simp add: groups_def)
    from violationCounts_entries [OF this]
    obtain r where c: "count g = length (filter (\<lambda>r. rule_id r = rule g) (knownRules vs))"
      and r: "r \<in> set (knownRules vs)" "rule_id r = rule g" "severity r = issue_severity g"
      by blast
    from r have f: "findRule (rule g) = Some r" using knownRules_find by force
    then have "count g = length (filter (\<lambda>v. ruleId v = rule g) vs)"
      using c knownRules_count [of "rule g" vs] by simp
    with f r show ?thesis by simp
  qed
  have ent: "\<forall>e\<in>set ti. count e = length (filter (\<lambda>v. ruleId v = rule e) vs)
                    \<and> (\<exists>r. findRule (rule e) = Some r \<and> issue_severity e = severity r)"
    using entry sub by blast
  have top: "\<forall>x\<in>set ids. \<forall>r. findRule x = Some r \<longrightarrow> x \<notin> set (map rule ti) \<longrightarrow>
            (\<forall>e\<in>set ti. spec_order e
               \<lparr>rule = x, count = length (filter (\<lambda>v. ruleId v = x) vs),
                issue_severity = severity r\<rparr>)"
  proof (intro ballI allI impI)
    fix x r e
    assume x: "x \<in> set ids" and fr: "findRule x = Some r"
      and nx: "x \<notin> set (map rule ti)" and e: "e \<in> set ti"
    from x sg' have "x \<in> rule ` set groups" by simp
    then obtain g where g: "g \<in> set groups" "rule g = x" by (auto simp: image_iff)
    from entry [OF g(1)] fr g(2)
    have "count g = length (filter (\<lambda>v. ruleId v = x) vs)" "issue_severity g = severity r"
      by auto
    then have geq: "g = \<lparr>rule = x, count = length (filter (\<lambda>v. ruleId v = x) vs),
                           issue_severity = severity r\<rparr>"
      using g(2) by simp
    have "g \<in> set srt" using g(1) by (simp add: srt_def set_sort_cmp)
    then have "g \<in> set (take 10 srt) \<union> set (drop 10 srt)"
      by (metis append_take_drop_id set_append)
    moreover have "g \<notin> set ti" using nx g(2) by auto
    ultimately have gd: "g \<in> set (drop 10 srt)" by (simp add: ti_def)
    have "sorted_wrt spec_order (take 10 srt @ drop 10 srt)" using ssrt by simp
    then have "\<forall>a\<in>set (take 10 srt). \<forall>b\<in>set (drop 10 srt). spec_order a b"
      unfolding sorted_wrt_append by blast
    then have "spec_order e g" using e gd by (simp add: ti_def)
    then show "spec_order e \<lparr>rule = x, count = length (filter (\<lambda>v. ruleId v = x) vs),
                              issue_severity = severity r\<rparr>"
      by (simp only: geq [symmetric])
  qed
  show ?thesis
    unfolding Let_def ti vs_def [symmetric] ids_def [symmetric]
    using len srtd dst subids ent top default_run_ids_known [of d testFiles opts] by blast
qed

lemma busyFiles_violations:
  "concat (map violations busyFiles) =
     [violation ''structure/missing-describe'' 1,
      violation ''maintain/poor-test-name'' 3,
      violation ''maintain/poor-test-name'' 7,
      violation ''maintain/magic-numbers'' 4,
      violation ''assertion/weak-assertion'' 5,
      violation ''theater/console-only'' 6,
      violation ''mock/excessive-mocking'' 1,
      violation ''flaky/random-data'' 8,
      violation ''flaky/random-data'' 9,
      violation ''flaky/random-data'' 12,
      violation ''theater/empty-test'' 10,
      violation ''flaky/timing-dependency'' 11,
      violation ''isolation/global-state'' 2,
      violation ''isolation/global-state'' 3,
      violation ''theater/always-true'' 4,
      violation ''theater/empty-test'' 5,
      violation ''theater/empty-test'' 6,
      violation ''mock/mock-return-ignores-input'' 1,
      violation ''maintain/commented-test'' 9,
      violation ''assertion/weak-assertion'' 10]"
  by (simp add: busyFiles_def)

lemma busyFiles_ids:
  "remdups (filter (\<lambda>rid. findRule rid \<noteq> None) (map ruleId (concat (map violations busyFiles)))) =
     [''structure/missing-describe'', ''maintain/poor-test-name'', ''maintain/magic-numbers'',
      ''theater/console-only'', ''mock/excessive-mocking'', ''flaky/random-data'',
      ''flaky/timing-dependency'', ''isolation/global-state'', ''theater/always-true'',
      ''theater/empty-test'', ''mock/mock-return-ignores-input'', ''maintain/commented-test'',
      ''assertion/weak-assertion'']"
  unfolding busyFiles_violations by code_simp

lemma busyFiles_topIssues:
  "topIssues (generateSummary busyFiles) =
     [\<lparr>rule = ''theater/empty-test'', count = 3, issue_severity = Error\<rparr>,
      \<lparr>rule = ''isolation/global-state'', count = 2, issue_severity = Error\<rparr>,
      \<lparr>rule = ''flaky/timing-dependency'', count = 1, issue_severity = Error\<rparr>,
      \<lparr>rule = ''theater/always-true'', count = 1, issue_severity = Error\<rparr>,
      \<lparr>rule = ''flaky/random-data'', count = 3, issue_severity = Warning\<rparr>,
      \<lparr>rule = ''assertion/weak-assertion'', count = 2, issue_severity = Warning\<rparr>,
      \<lparr>rule = ''theater/console-only'', count = 1, issue_severity = Warning\<rparr>,
      \<lparr>rule = ''mock/excessive-mocking'', count = 1, issue_severity = Warning\<rparr>,
      \<lparr>rule = ''maintain/commented-test'', count = 1, issue_severity = Warning\<rparr>,
      \<lparr>rule = ''maintain/poor-test-name'', count = 2, issue_severity = Info\<rparr>]"
proof -
  have "topIssues (generateSummary busyFiles) =
          take 10 (sort_cmp compareIssues (violationCounts (knownRules
            (concat (map violations busyFiles)))))"
    by (simp add: generateSummary_def Let_def)
  also have "\<dots> =
     [\<lparr>rule = ''theater/empty-test'', count = 3, issue_severity = Error\<rparr>,
      \<lparr>rule = ''isolation/global-state'', count = 2, issue_severity = Error\<rparr>,
      \<lparr>rule = ''flaky/timing-dependency'', count = 1, issue_severity = Error\<rparr>,
      \<lparr>rule = ''theater/always-true'', count = 1, issue_severity = Error\<rparr>,
      \<lparr>rule = ''flaky/random-data'', count = 3, issue_severity = Warning\<rparr>,
      \<lparr>rule = ''assertion/weak-assertion'', count = 2, issue_severity = Warning\<rparr>,
      \<lparr>rule = ''theater/console-only'', count = 1, issue_severity = Warning\<rparr>,
      \<lparr>rule = ''mock/excessive-mocking'', count = 1, issue_severity = Warning\<rparr>,
      \<lparr>rule = ''maintain/commented-test'', count = 1, issue_severity = Warning\<rparr>,
      \<lparr>rule = ''maintain/poor-test-name'', count = 2, issue_severity = Info\<rparr>]"
    unfolding busyFiles_violations by code_simp
  finally show ?thesis .
qed

lemma missing_describe_rule:
  "map_option severity (findRule ''structure/missing-describe'') = Some Info"
  by code_simp

theorem topIssues_grouped_sorted_truncated_witness:
  "length (remdups (filter (\<lambda>rid. findRule rid \<noteq> None)
                      (map ruleId (concat (map violations busyFiles))))) = 13
   \<and> length (topIssues (generateSummary busyFiles)) = 10
   \<and> map rule (topIssues (generateSummary busyFiles)) =
       [''theater/empty-test'', ''isolation/global-state'', ''flaky/timing-dependency'',
        ''theater/always-true'', ''flaky/random-data'', ''assertion/weak-assertion'',
        ''theater/console-only'', ''mock/excessive-mocking'', ''maintain/commented-test'',
        ''maintain/poor-test-name'']
   \<and> count (hd (topIssues (generateSummary busyFiles))) =
       length (filter (\<lambda>v. ruleId v = rule (hd (topIssues (generateSummary busyFiles))))
                 (concat (map violations busyFiles)))
   \<and> count (hd (topIssues (generateSummary busyFiles))) = 3
   \<and> spec_order (last (topIssues (generateSummary busyFiles)))
         \<lparr>rule = ''structure/missing-describe'',
          count = length (filter (\<lambda>v. ruleId v = ''structure/missing-describe'')
                            (concat (map violations busyFiles))),
          issue_severity = Info\<rparr>"
proof -
  let ?vs = "concat (map violations busyFiles)"
  let ?ids = "remdups (filter (\<lambda>rid. findRule rid \<noteq> None) (map ruleId ?vs))"
  let ?ti = "topIssues (generateSummary busyFiles)"
  note main = topIssues_grouped_sorted_truncated [of busyFiles, unfolded Let_def]
  have n: "length ?ids = 13" unfolding busyFiles_ids by simp
  from main have "length ?ti = min 10 (length ?ids)" by blast
  then have l: "length ?ti = 10" unfolding n by simp
  have names: "map rule ?ti =
       [''theater/empty-test'', ''isolation/global-state'', ''flaky/timing-dependency'',
        ''theater/always-true'', ''flaky/random-data'', ''assertion/weak-assertion'',
        ''theater/console-only'', ''mock/excessive-mocking'', ''maintain/commented-test'',
        ''maintain/poor-test-name'']"
    by (simp add: busyFiles_topIssues)
  have hd_in: "hd ?ti \<in> set ?ti" and last_in: "last ?ti \<in> set ?ti"
    by (simp_all add: busyFiles_topIssues)
  from main hd_in have c: "count (hd ?ti) = length (filter (\<lambda>v. ruleId v = rule (hd ?ti)) ?vs)"
    by blast
  have c3: "count (hd ?ti) = 3" by (simp add: busyFiles_topIssues)
  obtain r where r: "findRule ''structure/missing-describe'' = Some r" "severity r = Info"
    using missing_describe_rule by (cases "findRule ''structure/missing-describe''") auto
  have x_in: "''structure/missing-describe'' \<in> set ?ids" unfolding busyFiles_ids by simp
  have x_out: "''structure/missing-describe'' \<notin> set (map rule ?ti)" by (simp add: names)
  from main x_in r(1) x_out last_in
  have "spec_order (last ?ti)
         \<lparr>rule = ''structure/missing-describe'',
          count = length (filter (\<lambda>v. ruleId v = ''structure/missing-describe'') ?vs),
          issue_severity = severity r\<rparr>"
    by blast
  then have s: "spec_order (last ?ti)
         \<lparr>rule = ''structure/missing-describe'',
          count = length (filter (\<lambda>v. ruleId v = ''structure/missing-describe'') ?vs),
          issue_severity = Info\<rparr>"
    by (simp only: r(2))
  from n l names c c3 s show ?thesis by blast
qed

end
